theory Spec2Isabelle
  imports Main "HOL-Library.Word"
begin

section \<open>Data of the JavaScript runtime\<close>

text \<open>
  A JavaScript string is a sequence of 16-bit code units; a \<open>Uint8Array\<close> (and the
  \<open>ArrayBuffer\<close> behind it) is a sequence of bytes. String literals of the source are
  written \<open>js ''...''\<close>.
\<close>

type_synonym byte = "8 word"
type_synonym jstring = "16 word list"

definition js :: "string \<Rightarrow> jstring" where
  "js s = map of_char s"

text \<open>The exceptions that the calls made by the source can throw.\<close>

datatype jserror =
    InvalidCharacterError
  | SyntaxError
  | TypeError
  | OperationError
  | DataError

section \<open>\<open>window.btoa\<close> and \<open>window.atob\<close>\<close>

text \<open>
  \<open>btoa\<close> is the base64 encoding of RFC 4648 with padding; it throws when a code unit of
  its argument is above 255. \<open>atob\<close> is the forgiving base64 decoding of the HTML
  standard: ASCII whitespace is removed; when the length is then a multiple of 4, one or
  two trailing \<open>=\<close> are removed; a length that leaves remainder 1, or a code unit outside
  the alphabet, is a failure; every four sextets give three bytes, a rest of three sextets
  gives two bytes and a rest of two sextets gives one byte.
\<close>

definition b64_alphabet :: jstring where
  "b64_alphabet = js ''ABCDEFGHIJKLMNOPQRSTUVWXYZabcdefghijklmnopqrstuvwxyz0123456789+/''"

definition b64_pad :: "16 word" where
  "b64_pad = 61"

definition b64_char :: "nat \<Rightarrow> 16 word" where
  "b64_char n = b64_alphabet ! n"

fun index_of :: "'a \<Rightarrow> 'a list \<Rightarrow> nat option" where
  "index_of c [] = None"
| "index_of c (x # xs) = (if c = x then Some 0 else map_option Suc (index_of c xs))"

definition b64_index :: "16 word \<Rightarrow> nat option" where
  "b64_index c = index_of c b64_alphabet"

fun b64_encode :: "byte list \<Rightarrow> jstring" where
  "b64_encode [] = []"
| "b64_encode [a] =
     [b64_char (unat a div 4), b64_char (unat a mod 4 * 16), b64_pad, b64_pad]"
| "b64_encode [a, b] =
     [b64_char (unat a div 4), b64_char (unat a mod 4 * 16 + unat b div 16),
      b64_char (unat b mod 16 * 4), b64_pad]"
| "b64_encode (a # b # c # rest) =
     [b64_char (unat a div 4), b64_char (unat a mod 4 * 16 + unat b div 16),
      b64_char (unat b mod 16 * 4 + unat c div 64), b64_char (unat c mod 64)]
     @ b64_encode rest"

definition btoa :: "jstring \<Rightarrow> jserror + jstring" where
  "btoa s = (if list_ex (\<lambda>c. 255 < unat c) s then Inl InvalidCharacterError
             else Inr (b64_encode (map ucast s)))"

definition ascii_whitespace :: "16 word \<Rightarrow> bool" where
  "ascii_whitespace c \<longleftrightarrow> c = 9 \<or> c = 10 \<or> c = 12 \<or> c = 13 \<or> c = 32"

definition strip_padding :: "jstring \<Rightarrow> jstring" where
  "strip_padding d =
     (if length d mod 4 = 0 then
        (case rev d of
           p # q # r \<Rightarrow>
             if p = b64_pad then (if q = b64_pad then rev r else rev (q # r)) else d
         | [p] \<Rightarrow> if p = b64_pad then [] else d
         | [] \<Rightarrow> d)
      else d)"

fun b64_decode :: "nat list \<Rightarrow> byte list" where
  "b64_decode (a # b # c # d # rest) =
     (let n = a * 262144 + b * 4096 + c * 64 + d
      in [of_nat (n div 65536), of_nat (n div 256 mod 256), of_nat (n mod 256)]
         @ b64_decode rest)"
| "b64_decode [a, b, c] =
     (let n = (a * 4096 + b * 64 + c) div 4 in [of_nat (n div 256), of_nat (n mod 256)])"
| "b64_decode [a, b] = [of_nat ((a * 64 + b) div 16)]"
| "b64_decode _ = []"

definition atob :: "jstring \<Rightarrow> jserror + jstring" where
  "atob s =
     (let d = strip_padding (filter (\<lambda>c. \<not> ascii_whitespace c) s)
      in if length d mod 4 = 1 then Inl InvalidCharacterError
         else if list_ex (\<lambda>c. b64_index c = None) d then Inl InvalidCharacterError
         else Inr (map ucast (b64_decode (map (\<lambda>c. the (b64_index c)) d))))"

section \<open>The security module: base64 helpers\<close>

text \<open>
  \<open>arrayBufferToBase64\<close> appends \<open>String.fromCharCode(bytes[i])\<close> for every byte and
  hands the binary string to \<open>btoa\<close>; \<open>base64ToArrayBuffer\<close> stores
  \<open>binary_string.charCodeAt(i)\<close> into a \<open>Uint8Array\<close> of the length of what \<open>atob\<close>
  returned. Both loops visit every index once, in order.
\<close>

definition arrayBufferToBase64 :: "byte list \<Rightarrow> jserror + jstring" where
  "arrayBufferToBase64 buffer = btoa (map ucast buffer)"

definition base64ToArrayBuffer :: "jstring \<Rightarrow> jserror + byte list" where
  "base64ToArrayBuffer base64 =
     (case atob base64 of
        Inl e \<Rightarrow> Inl e
      | Inr binary_string \<Rightarrow> Inr (map ucast binary_string))"

section \<open>\<open>TextEncoder\<close> and \<open>TextDecoder\<close>\<close>

text \<open>
  \<open>new TextEncoder().encode(text)\<close> first converts the string to a sequence of scalar
  values (a surrogate pair is one code point, a surrogate without its partner becomes
  U+FFFD) and then writes every scalar value in UTF-8.
\<close>

definition is_high_surrogate :: "16 word \<Rightarrow> bool" where
  "is_high_surrogate c \<longleftrightarrow> 0xD800 \<le> unat c \<and> unat c \<le> 0xDBFF"

definition is_low_surrogate :: "16 word \<Rightarrow> bool" where
  "is_low_surrogate c \<longleftrightarrow> 0xDC00 \<le> unat c \<and> unat c \<le> 0xDFFF"

fun to_scalars :: "jstring \<Rightarrow> nat list" where
  "to_scalars [] = []"
| "to_scalars [c] = (if is_high_surrogate c \<or> is_low_surrogate c then [0xFFFD] else [unat c])"
| "to_scalars (c # d # rest) =
     (if is_high_surrogate c then
        (if is_low_surrogate d
         then (0x10000 + unat c mod 1024 * 1024 + unat d mod 1024) # to_scalars rest
         else 0xFFFD # to_scalars (d # rest))
      else if is_low_surrogate c then 0xFFFD # to_scalars (d # rest)
      else unat c # to_scalars (d # rest))"

definition utf8_encode_scalar :: "nat \<Rightarrow> byte list" where
  "utf8_encode_scalar cp =
     (if cp < 0x80 then [of_nat cp]
      else if cp < 0x800 then [of_nat (0xC0 + cp div 64), of_nat (0x80 + cp mod 64)]
      else if cp < 0x10000 then
        [of_nat (0xE0 + cp div 4096), of_nat (0x80 + cp div 64 mod 64), of_nat (0x80 + cp mod 64)]
      else
        [of_nat (0xF0 + cp div 262144), of_nat (0x80 + cp div 4096 mod 64),
         of_nat (0x80 + cp div 64 mod 64), of_nat (0x80 + cp mod 64)])"

definition TextEncoder_encode :: "jstring \<Rightarrow> byte list" where
  "TextEncoder_encode s = concat (map utf8_encode_scalar (to_scalars s))"

text \<open>
  \<open>new TextDecoder()\<close> decodes UTF-8 with \<open>fatal\<close> and \<open>ignoreBOM\<close> both false: a byte
  sequence that is not UTF-8 yields U+FFFD instead of an exception, and a byte order mark
  U+FEFF at the start of the input is dropped. The decoder is the state machine of the
  Encoding standard: \<open>utf8_lead\<close> handles a byte when no continuation byte is awaited,
  \<open>utf8_step\<close> any byte (a byte outside the awaited range ends the sequence with U+FFFD
  and is handled again as a lead byte), and \<open>utf8_run\<close> the end of the input.
\<close>

record utf8_decoder =
  code_point :: nat
  bytes_seen :: nat
  bytes_needed :: nat
  lower_boundary :: nat
  upper_boundary :: nat

definition utf8_init :: utf8_decoder where
  "utf8_init = \<lparr>code_point = 0, bytes_seen = 0, bytes_needed = 0,
                 lower_boundary = 0x80, upper_boundary = 0xBF\<rparr>"

definition utf8_lead :: "nat \<Rightarrow> utf8_decoder \<times> nat list" where
  "utf8_lead byte =
     (if byte \<le> 0x7F then (utf8_init, [byte])
      else if 0xC2 \<le> byte \<and> byte \<le> 0xDF then
        (utf8_init\<lparr>bytes_needed := 1, code_point := byte mod 32\<rparr>, [])
      else if 0xE0 \<le> byte \<and> byte \<le> 0xEF then
        (utf8_init\<lparr>lower_boundary := (if byte = 0xE0 then 0xA0 else 0x80),
                   upper_boundary := (if byte = 0xED then 0x9F else 0xBF),
                   bytes_needed := 2, code_point := byte mod 16\<rparr>, [])
      else if 0xF0 \<le> byte \<and> byte \<le> 0xF4 then
        (utf8_init\<lparr>lower_boundary := (if byte = 0xF0 then 0x90 else 0x80),
                   upper_boundary := (if byte = 0xF4 then 0x8F else 0xBF),
                   bytes_needed := 3, code_point := byte mod 8\<rparr>, [])
      else (utf8_init, [0xFFFD]))"

definition utf8_step :: "utf8_decoder \<Rightarrow> nat \<Rightarrow> utf8_decoder \<times> nat list" where
  "utf8_step st byte =
     (if bytes_needed st = 0 then utf8_lead byte
      else if byte < lower_boundary st \<or> upper_boundary st < byte then
        (case utf8_lead byte of (st', out) \<Rightarrow> (st', 0xFFFD # out))
      else
        (let cp = code_point st * 64 + byte mod 64;
             seen = bytes_seen st + 1
         in if seen \<noteq> bytes_needed st then
              (st\<lparr>lower_boundary := 0x80, upper_boundary := 0xBF,
                  code_point := cp, bytes_seen := seen\<rparr>, [])
            else (utf8_init, [cp])))"

fun utf8_run :: "utf8_decoder \<Rightarrow> byte list \<Rightarrow> nat list" where
  "utf8_run st [] = (if bytes_needed st \<noteq> 0 then [0xFFFD] else [])"
| "utf8_run st (b # bs) =
     (case utf8_step st (unat b) of (st', out) \<Rightarrow> out @ utf8_run st' bs)"

definition strip_bom :: "nat list \<Rightarrow> nat list" where
  "strip_bom cps = (case cps of [] \<Rightarrow> [] | cp # rest \<Rightarrow> if cp = 0xFEFF then rest else cps)"

definition from_scalar :: "nat \<Rightarrow> jstring" where
  "from_scalar cp =
     (if cp < 0x10000 then [of_nat cp]
      else [of_nat (0xD800 + (cp - 0x10000) div 1024),
            of_nat (0xDC00 + (cp - 0x10000) mod 1024)])"

definition TextDecoder_decode :: "byte list \<Rightarrow> jstring" where
  "TextDecoder_decode bytes =
     concat (map from_scalar (strip_bom (utf8_run utf8_init bytes)))"

section \<open>The security module\<close>

text \<open>
  The Web Crypto primitives are not part of the repository: they are parameters of the
  model. Each returns its result or the exception that rejects its promise. A
  \<open>CryptoKey\<close> is opaque, so its type is a parameter as well.
\<close>

record 'key webcrypto =
  subtle_generateKey :: "jserror + 'key"
  subtle_exportKey :: "'key \<Rightarrow> jserror + byte list"
  subtle_importKey :: "byte list \<Rightarrow> jserror + 'key"
  subtle_encrypt :: "'key \<Rightarrow> byte list \<Rightarrow> byte list \<Rightarrow> jserror + byte list"
  subtle_decrypt :: "'key \<Rightarrow> byte list \<Rightarrow> byte list \<Rightarrow> jserror + byte list"

text \<open>
  \<open>crypto.getRandomValues(new Uint8Array(n))\<close> fills \<open>n\<close> bytes from the random source;
  the source is the sequence of bytes it will deliver.
\<close>

definition getRandomValues :: "(nat \<Rightarrow> byte) \<Rightarrow> nat \<Rightarrow> byte list" where
  "getRandomValues source n = map source [0..<n]"

record encrypted =
  iv :: jstring
  data :: jstring

definition generateKey :: "'key webcrypto \<Rightarrow> jserror + 'key" where
  "generateKey wc = subtle_generateKey wc"

definition exportKey :: "'key webcrypto \<Rightarrow> 'key \<Rightarrow> jserror + jstring" where
  "exportKey wc key =
     (case subtle_exportKey wc key of
        Inl e \<Rightarrow> Inl e
      | Inr exported \<Rightarrow> arrayBufferToBase64 exported)"

definition importKey :: "'key webcrypto \<Rightarrow> jstring \<Rightarrow> jserror + 'key" where
  "importKey wc base64Key =
     (case base64ToArrayBuffer base64Key of
        Inl e \<Rightarrow> Inl e
      | Inr rawKey \<Rightarrow> subtle_importKey wc rawKey)"

definition encryptData ::
  "'key webcrypto \<Rightarrow> (nat \<Rightarrow> byte) \<Rightarrow> jstring \<Rightarrow> 'key \<Rightarrow> jserror + encrypted" where
  "encryptData wc source text key =
     (let encoded = TextEncoder_encode text;
          nonce = getRandomValues source 12
      in case subtle_encrypt wc key nonce encoded of
           Inl e \<Rightarrow> Inl e
         | Inr ciphertext \<Rightarrow>
             (case arrayBufferToBase64 nonce of
                Inl e \<Rightarrow> Inl e
              | Inr iv64 \<Rightarrow>
                  (case arrayBufferToBase64 ciphertext of
                     Inl e \<Rightarrow> Inl e
                   | Inr data64 \<Rightarrow> Inr \<lparr>iv = iv64, data = data64\<rparr>)))"

definition decryptData ::
  "'key webcrypto \<Rightarrow> jstring \<Rightarrow> jstring \<Rightarrow> 'key \<Rightarrow> jserror + jstring" where
  "decryptData wc encryptedData ivStr key =
     (case base64ToArrayBuffer ivStr of
        Inl e \<Rightarrow> Inl e
      | Inr nonce \<Rightarrow>
          (case base64ToArrayBuffer encryptedData of
             Inl e \<Rightarrow> Inl e
           | Inr ciphertext \<Rightarrow>
               (case subtle_decrypt wc key nonce ciphertext of
                  Inl e \<Rightarrow> Inl e
                | Inr decrypted \<Rightarrow> Inr (TextDecoder_decode decrypted))))"

section \<open>JavaScript values\<close>

text \<open>
  The values that \<open>JSON.parse\<close> returns and \<open>JSON.stringify\<close> accepts, and
  \<open>undefined\<close>. A number is carried by the string that \<open>ToString\<close> gives for it, which
  is all the source can observe of it: whether it is falsy (\<open>0\<close>, \<open>-0\<close> and \<open>NaN\<close>, the
  first two both written \<open>0\<close>) and its text when it is handed to \<open>atob\<close>. An object is
  the list of its own properties.
\<close>

datatype jsval =
    JUndefined
  | JNull
  | JBool bool
  | JNum jstring
  | JStr jstring
  | JArr "jsval list"
  | JObj "(jstring \<times> jsval) list"

text \<open>\<open>ToBoolean\<close>, which \<open>!\<close>, \<open>&&\<close> and \<open>if\<close> apply to their operand.\<close>

fun truthy :: "jsval \<Rightarrow> bool" where
  "truthy JUndefined = False"
| "truthy JNull = False"
| "truthy (JBool b) = b"
| "truthy (JNum r) = (r \<noteq> js ''0'' \<and> r \<noteq> js ''NaN'')"
| "truthy (JStr s) = (s \<noteq> [])"
| "truthy (JArr xs) = True"
| "truthy (JObj kvs) = True"

text \<open>
  Reading a property \<open>v.name\<close>, for the names the source reads (\<open>s\<close>, \<open>k\<close>, \<open>iv\<close>,
  \<open>data\<close>); none of them is inherited from a prototype. Reading a property of \<open>null\<close>
  or \<open>undefined\<close> throws.
\<close>

fun get_prop :: "jsval \<Rightarrow> jstring \<Rightarrow> jserror + jsval" where
  "get_prop JUndefined name = Inl TypeError"
| "get_prop JNull name = Inl TypeError"
| "get_prop (JObj kvs) name = (case map_of kvs name of Some v \<Rightarrow> Inr v | None \<Rightarrow> Inr JUndefined)"
| "get_prop v name = Inr JUndefined"

text \<open>\<open>ToString\<close>, which \<open>atob\<close> applies to an argument that is not a string.\<close>

fun join_comma :: "jstring list \<Rightarrow> jstring" where
  "join_comma [] = []"
| "join_comma [x] = x"
| "join_comma (x # y # rest) = x @ js '','' @ join_comma (y # rest)"

fun to_string :: "jsval \<Rightarrow> jstring" where
  "to_string JUndefined = js ''undefined''"
| "to_string JNull = js ''null''"
| "to_string (JBool b) = (if b then js ''true'' else js ''false'')"
| "to_string (JNum r) = r"
| "to_string (JStr s) = s"
| "to_string (JArr xs) =
     join_comma (map (\<lambda>x. if x = JNull \<or> x = JUndefined then [] else to_string x) xs)"
| "to_string (JObj kvs) = js ''[object Object]''"

text \<open>\<open>String.prototype.trim\<close> and \<open>String.prototype.startsWith\<close>.\<close>

definition js_whitespace :: "16 word \<Rightarrow> bool" where
  "js_whitespace c \<longleftrightarrow>
     c \<in> set [0x09, 0x0A, 0x0B, 0x0C, 0x0D, 0x20, 0xA0, 0x1680, 0x2000, 0x2001, 0x2002, 0x2003,
              0x2004, 0x2005, 0x2006, 0x2007, 0x2008, 0x2009, 0x200A, 0x2028, 0x2029, 0x202F,
              0x205F, 0x3000, 0xFEFF]"

definition trim :: "jstring \<Rightarrow> jstring" where
  "trim s = rev (dropWhile js_whitespace (rev (dropWhile js_whitespace s)))"

definition startsWith :: "jstring \<Rightarrow> jstring \<Rightarrow> bool" where
  "startsWith s p = (take (length p) s = p)"

section \<open>The link module\<close>

text \<open>
  \<open>LZString\<close> is declared by the source and loaded from elsewhere, and \<open>JSON\<close> belongs to
  the runtime: both are parameters of the model. \<open>decompressFromEncodedURIComponent\<close>
  returns a string or \<open>null\<close> (\<open>None\<close>); \<open>JSON.parse\<close> returns a value or throws.
\<close>

record codec =
  compressToEncodedURIComponent :: "jstring \<Rightarrow> jstring"
  decompressFromEncodedURIComponent :: "jstring \<Rightarrow> jserror + jstring option"
  JSON_stringify :: "jsval \<Rightarrow> jstring"
  JSON_parse :: "jstring \<Rightarrow> jserror + jsval"

definition generateLinkHash :: "codec \<Rightarrow> jsval \<Rightarrow> jstring \<Rightarrow> jstring" where
  "generateLinkHash lib sdp key =
     (let payload = JSON_stringify lib (JObj [(js ''s'', sdp), (js ''k'', JStr key)])
      in compressToEncodedURIComponent lib payload)"

text \<open>
  The body of the \<open>try\<close> block of \<open>parseLinkHash\<close>, with the exception it can end in, and
  the call of \<open>parseLinkHash\<close> itself: its \<open>catch\<close> writes \<open>Link parse error\<close> with
  \<open>console.error\<close> and turns every exception into \<open>null\<close>. A call yields what it returns
  (\<open>Inr\<close>) or throws to its caller (\<open>Inl\<close>), and what it has written to the console;
  \<open>parseLinkHash\<close> and \<open>parseLinkHash_log\<close> are these two components.
\<close>

definition parseLinkHash_try :: "codec \<Rightarrow> jstring \<Rightarrow> jserror + jsval" where
  "parseLinkHash_try lib hash =
     (case decompressFromEncodedURIComponent lib hash of
        Inl e \<Rightarrow> Inl e
      | Inr None \<Rightarrow> Inr JNull
      | Inr (Some decompressed) \<Rightarrow>
          if decompressed = [] then Inr JNull else JSON_parse lib decompressed)"

definition parseLinkHash_call :: "codec \<Rightarrow> jstring \<Rightarrow> (jserror + jsval) \<times> string list" where
  "parseLinkHash_call lib hash =
     (case parseLinkHash_try lib hash of
        Inl e \<Rightarrow> (Inr JNull, [''Link parse error''])
      | Inr v \<Rightarrow> (Inr v, []))"

definition parseLinkHash :: "codec \<Rightarrow> jstring \<Rightarrow> jserror + jsval" where
  "parseLinkHash lib hash = fst (parseLinkHash_call lib hash)"

definition parseLinkHash_log :: "codec \<Rightarrow> jstring \<Rightarrow> string list" where
  "parseLinkHash_log lib hash = snd (parseLinkHash_call lib hash)"

section \<open>The application component\<close>

datatype State =
    INIT
  | HOST_GENERATING
  | HOST_WAITING
  | GUEST_PROCESSING
  | GUEST_ANSWER_READY
  | CONNECTED

datatype Sender = Me | Peer

record Message =
  msg_id :: jstring
  msg_text :: jstring
  sender :: Sender
  timestamp :: int

text \<open>
  The peer connection and the data channel, as far as the handlers use them: the remote
  description handed to the connection, and the value of \<open>sharedKey\<close> that the
  \<open>onmessage\<close> handler of the channel closed over when \<open>setupDataChannel\<close> created it.
\<close>

record peer_connection =
  remoteDescription :: jsval

record 'key data_channel =
  onmessage_key :: "'key option"

text \<open>
  The state of the component: its \<open>useState\<close> variables and \<open>useRef\<close> cells, and what
  it has shown with \<open>alert\<close> and written with \<open>console.error\<close>.
\<close>

record 'key app =
  state :: State
  sharedKey :: "'key option"
  messages :: "Message list"
  inputText :: jstring
  pcRef :: "peer_connection option"
  dcRef :: "'key data_channel option"
  offerLink :: jstring
  answerData :: jstring
  manualInput :: jstring
  alerts :: "string list"
  console :: "string list"

text \<open>
  The transport is outside the repository: what the calls on the \<open>RTCPeerConnection\<close>
  answer is a parameter. \<open>setRemoteDescription\<close> stands for
  \<open>pc.setRemoteDescription(new RTCSessionDescription(d))\<close> and \<open>localDescription d\<close> for
  what \<open>pc.localDescription\<close> holds, once \<open>d\<close> has been set, when the source reads it.
  \<open>iceGatheringState\<close> is the state when \<open>waitForIce\<close> is called and \<open>iceEvents\<close> the
  states at the \<open>icegatheringstatechange\<close> events delivered since.
\<close>

datatype ice_gathering_state = IceNew | IceGathering | IceComplete

record rtc =
  createOffer :: "jserror + jsval"
  createAnswer :: "jsval \<Rightarrow> jserror + jsval"
  setLocalDescription :: "jsval \<Rightarrow> jserror option"
  setRemoteDescription :: "jsval \<Rightarrow> jserror option"
  localDescription :: "jsval \<Rightarrow> jsval"
  iceGatheringState :: ice_gathering_state
  iceEvents :: "ice_gathering_state list"

record 'key platform =
  subtle :: "'key webcrypto"
  libs :: codec
  pc :: rtc
  location :: jstring

text \<open>How a piece of an \<open>async\<close> function ended: it returned, threw, or awaits still.\<close>

datatype outcome = Returned | Thrown jserror | Pending

subsection \<open>\<open>waitForIce\<close>\<close>

text \<open>
  The promise of \<open>waitForIce\<close>: whether the listener \<open>check\<close> is registered, and how often
  \<open>resolve\<close> has been called. \<open>waitForIce_start\<close> is the executor of the promise,
  \<open>waitForIce_check\<close> the delivery of one \<open>icegatheringstatechange\<close> event (the listener
  runs only while it is registered).
\<close>

record ice_wait =
  listening :: bool
  resolved :: nat

definition waitForIce_start :: "ice_gathering_state \<Rightarrow> ice_wait" where
  "waitForIce_start s =
     (if s = IceComplete then \<lparr>listening = False, resolved = 1\<rparr>
      else \<lparr>listening = True, resolved = 0\<rparr>)"

definition waitForIce_check :: "ice_wait \<Rightarrow> ice_gathering_state \<Rightarrow> ice_wait" where
  "waitForIce_check w s =
     (if listening w then
        (if s = IceComplete then w\<lparr>listening := False, resolved := resolved w + 1\<rparr> else w)
      else w)"

definition waitForIce :: "rtc \<Rightarrow> ice_wait" where
  "waitForIce conn = foldl waitForIce_check (waitForIce_start (iceGatheringState conn)) (iceEvents conn)"

subsection \<open>\<open>setupDataChannel\<close>\<close>

text \<open>
  \<open>setupDataChannel\<close> stores the channel and installs \<open>onmessage\<close>. The handler reads the
  variable \<open>sharedKey\<close> of the render in which \<open>setupDataChannel\<close> was created, which
  \<open>setSharedKey\<close> does not change: \<open>rendered_key\<close>.
\<close>

definition setupDataChannel :: "'key option \<Rightarrow> 'key app \<Rightarrow> 'key app" where
  "setupDataChannel rendered_key st = st\<lparr>dcRef := Some \<lparr>onmessage_key = rendered_key\<rparr>\<rparr>"

definition dc_onopen :: "'key app \<Rightarrow> 'key app" where
  "dc_onopen st = st\<lparr>state := CONNECTED\<rparr>"

text \<open>
  The \<open>try\<close> block of \<open>dc.onmessage\<close>: the decrypted text, \<open>None\<close> when the \<open>if\<close> is not
  entered, or the exception.
\<close>

definition dc_onmessage_try ::
  "'key platform \<Rightarrow> 'key option \<Rightarrow> jstring \<Rightarrow> jserror + jstring option" where
  "dc_onmessage_try pf key e_data =
     (case JSON_parse (libs pf) e_data of
        Inl e \<Rightarrow> Inl e
      | Inr payload \<Rightarrow>
          (case get_prop payload (js ''iv'') of
             Inl e \<Rightarrow> Inl e
           | Inr iv_val \<Rightarrow>
               if \<not> truthy iv_val then Inr None
               else
                 (case get_prop payload (js ''data'') of
                    Inl e \<Rightarrow> Inl e
                  | Inr data_val \<Rightarrow>
                      if \<not> truthy data_val then Inr None
                      else
                        (case key of
                           None \<Rightarrow> Inr None
                         | Some k \<Rightarrow>
                             (case decryptData (subtle pf) (to_string data_val)
                                     (to_string iv_val) k of
                                Inl e \<Rightarrow> Inl e
                              | Inr text \<Rightarrow> Inr (Some text))))))"

text \<open>
  \<open>dc.onmessage\<close> of the channel \<open>dc\<close> for the event data \<open>e_data\<close>; \<open>fresh_id\<close> and
  \<open>now\<close> are what \<open>Date.now().toString() + Math.random()\<close> and \<open>Date.now()\<close> give.
\<close>

definition dc_onmessage ::
  "'key platform \<Rightarrow> 'key data_channel \<Rightarrow> jstring \<Rightarrow> int \<Rightarrow> jstring \<Rightarrow> 'key app \<Rightarrow> 'key app" where
  "dc_onmessage pf dc fresh_id now e_data st =
     (case dc_onmessage_try pf (onmessage_key dc) e_data of
        Inl e \<Rightarrow> st\<lparr>console := console st @ [''Decryption failed'']\<rparr>
      | Inr None \<Rightarrow> st
      | Inr (Some text) \<Rightarrow>
          st\<lparr>messages := messages st @
               [\<lparr>msg_id = fresh_id, msg_text = text, sender = Peer, timestamp = now\<rparr>]\<rparr>)"

subsection \<open>The host\<close>

definition initPeer :: "'key app \<Rightarrow> 'key app" where
  "initPeer st = st\<lparr>pcRef := Some \<lparr>remoteDescription = JNull\<rparr>\<rparr>"

text \<open>
  The \<open>try\<close> block of \<open>startHost\<close>, up to the rendering of the QR code. It ends
  \<open>Pending\<close> when the promise of \<open>waitForIce\<close> has not been resolved.
\<close>

definition startHost_try :: "'key platform \<Rightarrow> 'key option \<Rightarrow> 'key app \<Rightarrow> outcome \<times> 'key app" where
  "startHost_try pf rendered_key st =
     (case generateKey (subtle pf) of
        Inl e \<Rightarrow> (Thrown e, st)
      | Inr key \<Rightarrow>
          (let st1 = st\<lparr>sharedKey := Some key\<rparr> in
           case exportKey (subtle pf) key of
             Inl e \<Rightarrow> (Thrown e, st1)
           | Inr rawKey \<Rightarrow>
               (let st2 = setupDataChannel rendered_key (initPeer st1) in
                case createOffer (pc pf) of
                  Inl e \<Rightarrow> (Thrown e, st2)
                | Inr offer \<Rightarrow>
                    (case setLocalDescription (pc pf) offer of
                       Some e \<Rightarrow> (Thrown e, st2)
                     | None \<Rightarrow>
                         if resolved (waitForIce (pc pf)) = 0 then (Pending, st2)
                         else
                           (let hash = generateLinkHash (libs pf)
                                         (localDescription (pc pf) offer) rawKey;
                                link = location pf @ js ''#'' @ hash
                            in (Returned, st2\<lparr>offerLink := link, state := HOST_WAITING\<rparr>))))))"

definition startHost :: "'key platform \<Rightarrow> 'key app \<Rightarrow> 'key app" where
  "startHost pf st =
     (case startHost_try pf (sharedKey st) (st\<lparr>state := HOST_GENERATING\<rparr>) of
        (Thrown e, st') \<Rightarrow>
          st'\<lparr>console := console st' @ [''error''],
              alerts := alerts st' @ [''Failed to initialize host''],
              state := INIT\<rparr>
      | (_, st') \<Rightarrow> st')"

text \<open>
  The decoding in \<open>handleHostProcessAnswer\<close>, from \<open>let answerSDP = null\<close> to the last
  assignment of \<open>answerSDP\<close>: the value of \<open>answerSDP\<close>, or the exception that leaves the
  outer \<open>try\<close> block.
\<close>

definition decodeAnswer :: "codec \<Rightarrow> jstring \<Rightarrow> jserror + jsval" where
  "decodeAnswer lib input =
     (let answerSDP1 =
            (case parseLinkHash lib input of
               Inl e \<Rightarrow> JNull
             | Inr payload \<Rightarrow>
                 if truthy payload then
                   (case get_prop payload (js ''s'') of
                      Inl e \<Rightarrow> JNull
                    | Inr s \<Rightarrow> if truthy s then s else JNull)
                 else JNull);
          answerSDP2 =
            (if \<not> truthy answerSDP1 then
               (case atob input of
                  Inl e \<Rightarrow> answerSDP1
                | Inr binary \<Rightarrow>
                    (case JSON_parse lib binary of
                       Inl e \<Rightarrow> answerSDP1
                     | Inr v \<Rightarrow> v))
             else answerSDP1)
      in if \<not> truthy answerSDP2 \<and> startsWith input (js ''{'')
         then JSON_parse lib input
         else Inr answerSDP2)"

text \<open>
  The outer \<open>try\<close> block of \<open>handleHostProcessAnswer\<close>. What the call of
  \<open>parseLinkHash\<close> in the decoding has written to the console is in the state from then
  on.
\<close>

definition handleHostProcessAnswer_try :: "'key platform \<Rightarrow> 'key app \<Rightarrow> outcome \<times> 'key app" where
  "handleHostProcessAnswer_try pf st =
     (let st1 = st\<lparr>console := console st @ parseLinkHash_log (libs pf) (manualInput st)\<rparr> in
      case decodeAnswer (libs pf) (manualInput st) of
        Inl e \<Rightarrow> (Thrown e, st1)
      | Inr answerSDP \<Rightarrow>
          (case pcRef st1 of
             Some conn \<Rightarrow>
               if truthy answerSDP then
                 (case setRemoteDescription (pc pf) answerSDP of
                    Some e \<Rightarrow> (Thrown e, st1)
                  | None \<Rightarrow>
                      (Returned, st1\<lparr>pcRef := Some (conn\<lparr>remoteDescription := answerSDP\<rparr>)\<rparr>))
               else (Returned, st1\<lparr>alerts := alerts st1 @ [''Invalid Answer Code'']\<rparr>)
           | None \<Rightarrow> (Returned, st1\<lparr>alerts := alerts st1 @ [''Invalid Answer Code'']\<rparr>)))"

definition handleHostProcessAnswer :: "'key platform \<Rightarrow> 'key app \<Rightarrow> 'key app" where
  "handleHostProcessAnswer pf st =
     (if trim (manualInput st) = [] then st
      else
        (case handleHostProcessAnswer_try pf st of
           (Thrown e, st') \<Rightarrow>
             st'\<lparr>console := console st' @ [''error''],
                 alerts := alerts st' @ [''Error connecting'']\<rparr>
         | (_, st') \<Rightarrow> st'))"

subsection \<open>The guest\<close>

text \<open>
  The \<open>try\<close> block of \<open>handleGuestLoad\<close> after the check of the parsed link; \<open>desc\<close> and
  \<open>key64\<close> are \<open>data.s\<close> and \<open>data.k\<close>.
\<close>

definition handleGuestLoad_join ::
  "'key platform \<Rightarrow> jsval \<Rightarrow> jsval \<Rightarrow> 'key app \<Rightarrow> outcome \<times> 'key app" where
  "handleGuestLoad_join pf desc key64 st =
     (case importKey (subtle pf) (to_string key64) of
        Inl e \<Rightarrow> (Thrown e, st)
      | Inr key \<Rightarrow>
          (let st1 = initPeer (st\<lparr>sharedKey := Some key\<rparr>) in
           case setRemoteDescription (pc pf) desc of
             Some e \<Rightarrow> (Thrown e, st1)
           | None \<Rightarrow>
               (let st2 = st1\<lparr>pcRef := Some \<lparr>remoteDescription = desc\<rparr>\<rparr> in
                case createAnswer (pc pf) desc of
                  Inl e \<Rightarrow> (Thrown e, st2)
                | Inr answer \<Rightarrow>
                    (case setLocalDescription (pc pf) answer of
                       Some e \<Rightarrow> (Thrown e, st2)
                     | None \<Rightarrow>
                         if resolved (waitForIce (pc pf)) = 0 then (Pending, st2)
                         else
                           (case btoa (JSON_stringify (libs pf)
                                         (localDescription (pc pf) answer)) of
                              Inl e \<Rightarrow> (Thrown e, st2)
                            | Inr answerString \<Rightarrow>
                                (Returned, st2\<lparr>answerData := answerString,
                                               state := GUEST_ANSWER_READY\<rparr>))))))"

text \<open>
  The \<open>try\<close> block of \<open>handleGuestLoad\<close>. What the call of \<open>parseLinkHash\<close> has
  written to the console is in the state from then on.
\<close>

definition handleGuestLoad_try ::
  "'key platform \<Rightarrow> jstring \<Rightarrow> 'key app \<Rightarrow> outcome \<times> 'key app" where
  "handleGuestLoad_try pf hash st =
     (let st1 = st\<lparr>console := console st @ parseLinkHash_log (libs pf) hash\<rparr> in
      case parseLinkHash (libs pf) hash of
        Inl e \<Rightarrow> (Thrown e, st1)
      | Inr parsed \<Rightarrow>
          if \<not> truthy parsed then
            (Returned, st1\<lparr>alerts := alerts st1 @ [''Invalid Invite Link''], state := INIT\<rparr>)
          else
            (case get_prop parsed (js ''s'') of
               Inl e \<Rightarrow> (Thrown e, st1)
             | Inr desc \<Rightarrow>
                 if \<not> truthy desc then
                   (Returned, st1\<lparr>alerts := alerts st1 @ [''Invalid Invite Link''], state := INIT\<rparr>)
                 else
                   (case get_prop parsed (js ''k'') of
                      Inl e \<Rightarrow> (Thrown e, st1)
                    | Inr key64 \<Rightarrow>
                        if \<not> truthy key64 then
                          (Returned,
                           st1\<lparr>alerts := alerts st1 @ [''Invalid Invite Link''], state := INIT\<rparr>)
                        else handleGuestLoad_join pf desc key64 st1)))"

definition handleGuestLoad :: "'key platform \<Rightarrow> jstring \<Rightarrow> 'key app \<Rightarrow> 'key app" where
  "handleGuestLoad pf hash st =
     (case handleGuestLoad_try pf hash (st\<lparr>state := GUEST_PROCESSING\<rparr>) of
        (Thrown e, st') \<Rightarrow>
          st'\<lparr>console := console st' @ [''error''],
              alerts := alerts st' @ [''Failed to join session''],
              state := INIT\<rparr>
      | (_, st') \<Rightarrow> st')"

text \<open>The state with which the component is mounted.\<close>

definition initial_app :: "'key app" where
  "initial_app =
     \<lparr>state = INIT, sharedKey = None, messages = [], inputText = [], pcRef = None,
      dcRef = None, offerLink = [], answerData = [], manualInput = [], alerts = [],
      console = []\<rparr>"

section \<open>The decoding chain as the specification words it\<close>

text \<open>
  The three decodings of a pasted answer, each with the descriptor it yields when it
  yields one that is not empty, and the first of a list of attempts that yields one.
\<close>

definition spec_decode_compressed :: "codec \<Rightarrow> jstring \<Rightarrow> jsval option" where
  "spec_decode_compressed lib input =
     (case parseLinkHash lib input of
        Inl e \<Rightarrow> None
      | Inr payload \<Rightarrow>
          (case get_prop payload (js ''s'') of
             Inl e \<Rightarrow> None
           | Inr s \<Rightarrow> if truthy s then Some s else None))"

definition spec_decode_base64 :: "codec \<Rightarrow> jstring \<Rightarrow> jsval option" where
  "spec_decode_base64 lib input =
     (case atob input of
        Inl e \<Rightarrow> None
      | Inr binary \<Rightarrow>
          (case JSON_parse lib binary of
             Inl e \<Rightarrow> None
           | Inr v \<Rightarrow> if truthy v then Some v else None))"

definition spec_decode_raw :: "codec \<Rightarrow> jstring \<Rightarrow> jsval option" where
  "spec_decode_raw lib input =
     (case JSON_parse lib input of
        Inl e \<Rightarrow> None
      | Inr v \<Rightarrow> if truthy v then Some v else None)"

fun first_valid :: "'a option list \<Rightarrow> 'a option" where
  "first_valid [] = None"
| "first_valid (Some v # rest) = Some v"
| "first_valid (None # rest) = first_valid rest"

definition spec_decode_chain :: "codec \<Rightarrow> jstring \<Rightarrow> jsval option" where
  "spec_decode_chain lib input =
     first_valid [spec_decode_compressed lib input, spec_decode_base64 lib input,
                  spec_decode_raw lib input]"

text \<open>
  The descriptor and the key of an invite link, when the parsed link and both fields are
  truthy: the check \<open>!data || !data.s || !data.k\<close> of \<open>handleGuestLoad\<close> fails exactly
  when there are none.
\<close>

definition invite_fields :: "codec \<Rightarrow> jstring \<Rightarrow> (jsval \<times> jsval) option" where
  "invite_fields lib hash =
     (case parseLinkHash lib hash of
        Inl e \<Rightarrow> None
      | Inr parsed \<Rightarrow>
          if truthy parsed then
            (case (get_prop parsed (js ''s''), get_prop parsed (js ''k'')) of
               (Inr d, Inr k64) \<Rightarrow> if truthy d \<and> truthy k64 then Some (d, k64) else None
             | _ \<Rightarrow> None)
          else None)"

section \<open>Auxiliary functions of the proofs\<close>

text \<open>
  The sextets and the padding that \<open>b64_encode\<close> writes, taken apart; they are used only
  to state intermediate lemmas.
\<close>

fun b64_sextets :: "byte list \<Rightarrow> nat list" where
  "b64_sextets [] = []"
| "b64_sextets [a] = [unat a div 4, unat a mod 4 * 16]"
| "b64_sextets [a, b] = [unat a div 4, unat a mod 4 * 16 + unat b div 16, unat b mod 16 * 4]"
| "b64_sextets (a # b # c # rest) =
     [unat a div 4, unat a mod 4 * 16 + unat b div 16,
      unat b mod 16 * 4 + unat c div 64, unat c mod 64] @ b64_sextets rest"

fun b64_padding :: "byte list \<Rightarrow> jstring" where
  "b64_padding [] = []"
| "b64_padding [a] = [b64_pad, b64_pad]"
| "b64_padding [a, b] = [b64_pad]"
| "b64_padding (a # b # c # rest) = b64_padding rest"

text \<open>
  What \<open>String.prototype.isWellFormed\<close> tests (no surrogate without its partner), and the
  range of the Unicode scalar values.
\<close>

fun well_formed :: "jstring \<Rightarrow> bool" where
  "well_formed [] = True"
| "well_formed [c] = (\<not> is_high_surrogate c \<and> \<not> is_low_surrogate c)"
| "well_formed (c # d # rest) =
     (if is_high_surrogate c then is_low_surrogate d \<and> well_formed rest
      else \<not> is_low_surrogate c \<and> well_formed (d # rest))"

definition scalar_value :: "nat \<Rightarrow> bool" where
  "scalar_value cp \<longleftrightarrow> cp < 0x110000 \<and> \<not> (0xD800 \<le> cp \<and> cp \<le> 0xDFFF)"

text \<open>
  \<open>String.prototype.toWellFormed\<close>, which replaces every surrogate without its partner
  by U+FFFD, and the removal of one U+FEFF at the start of a string. They are used to
  state what comes back from an encoding followed by a decoding.
\<close>

fun toWellFormed :: "jstring \<Rightarrow> jstring" where
  "toWellFormed [] = []"
| "toWellFormed [c] = (if is_high_surrogate c \<or> is_low_surrogate c then [0xFFFD] else [c])"
| "toWellFormed (c # d # rest) =
     (if is_high_surrogate c then
        (if is_low_surrogate d then c # d # toWellFormed rest
         else 0xFFFD # toWellFormed (d # rest))
      else if is_low_surrogate c then 0xFFFD # toWellFormed (d # rest)
      else c # toWellFormed (d # rest))"

definition without_bom :: "jstring \<Rightarrow> jstring" where
  "without_bom s = (case s of [] \<Rightarrow> [] | c # rest \<Rightarrow> if c = 0xFEFF then rest else s)"

section \<open>Stand-ins for the libraries\<close>

text \<open>
  A stand-in for AES-GCM with the interface of an authenticated cipher, used where a
  statement needs a concrete cipher: the ciphertext is the plaintext followed by the
  nonce as its tag, and decryption rejects a ciphertext whose tag is not the nonce. A
  raw key is imported when it has 16, 24 or 32 bytes, the key sizes of AES. It is used
  in the examples only; the general statements are about any cipher.
\<close>

definition tagging_cipher :: "nat webcrypto" where
  "tagging_cipher =
     \<lparr>subtle_generateKey = Inr 0,
      subtle_exportKey = (\<lambda>k. Inr (replicate 32 (of_nat k))),
      subtle_importKey = (\<lambda>raw. if length raw \<in> set [16, 24, 32] then Inr (unat (hd raw))
                                else Inl DataError),
      subtle_encrypt = (\<lambda>k nonce plain. Inr (plain @ nonce)),
      subtle_decrypt = (\<lambda>k nonce c.
         if length nonce \<le> length c \<and> drop (length c - length nonce) c = nonce
         then Inr (take (length c - length nonce) c) else Inl OperationError)\<rparr>"

text \<open>
  A codec given by two finite tables: the tokens with the text they decompress to, and
  the JSON texts with the value they denote. Outside the tables decompression returns
  \<open>null\<close> and parsing throws. It stands for the libraries at the arguments of an
  example.
\<close>

definition table_codec :: "(jstring \<times> jstring) list \<Rightarrow> (jstring \<times> jsval) list \<Rightarrow> codec" where
  "table_codec tokens texts =
     \<lparr>compressToEncodedURIComponent =
        (\<lambda>t. case map_of (map (\<lambda>(token, text). (text, token)) tokens) t of
               Some token \<Rightarrow> token | None \<Rightarrow> []),
      decompressFromEncodedURIComponent = (\<lambda>token. Inr (map_of tokens token)),
      JSON_stringify =
        (\<lambda>v. case map_of (map (\<lambda>(text, v). (v, text)) texts) v of
               Some text \<Rightarrow> text | None \<Rightarrow> []),
      JSON_parse = (\<lambda>t. case map_of texts t of Some v \<Rightarrow> Inr v | None \<Rightarrow> Inl SyntaxError)\<rparr>"

text \<open>
  The data of the examples: an offer and an answer as the transport creates them.
\<close>

definition offer_sdp :: jsval where
  "offer_sdp = JObj [(js ''type'', JStr (js ''offer'')), (js ''sdp'', JStr (js ''v=0''))]"

definition answer_sdp :: jsval where
  "answer_sdp = JObj [(js ''type'', JStr (js ''answer'')), (js ''sdp'', JStr (js ''v=0''))]"

text \<open>
  A platform with the stand-in cipher, a given codec and a scripted transport: the
  transport creates the offer and the answer above, keeps the description it is given
  as its local description, accepts or rejects the remote description as
  \<open>remote_verdict\<close> says, and delivers the listed gathering states.
\<close>

definition demo_platform :: "codec \<Rightarrow> rtc \<Rightarrow> nat platform" where
  "demo_platform lib conn =
     \<lparr>subtle = tagging_cipher, libs = lib, pc = conn, location = js ''https://chat.example/''\<rparr>"

definition scripted_rtc :: "jserror option \<Rightarrow> ice_gathering_state list \<Rightarrow> rtc" where
  "scripted_rtc remote_verdict events =
     \<lparr>createOffer = Inr offer_sdp, createAnswer = (\<lambda>d. Inr answer_sdp),
      setLocalDescription = (\<lambda>d. None), setRemoteDescription = (\<lambda>d. remote_verdict),
      localDescription = (\<lambda>d. d), iceGatheringState = IceNew, iceEvents = events\<rparr>"

text \<open>
  A key of 32 zero bytes in base64, the invite for the offer and that key with its
  token, the serialized answer, the token of a text that is not JSON, an invite whose
  key is too short, two nonces, and two encrypted messages, the second with its last
  byte changed.
\<close>

definition zero_key64 :: jstring where
  "zero_key64 = js ''AAAAAAAAAAAAAAAAAAAAAAAAAAAAAAAAAAAAAAAAAAA=''"

definition invite_text :: jstring where
  "invite_text =
     js ''{\"s\":{\"type\":\"offer\",\"sdp\":\"v=0\"},\"k\":\"AAAAAAAAAAAAAAAAAAAAAAAAAAAAAAAAAAAAAAAAAAA=\"}''"

definition invite_token :: jstring where
  "invite_token = js ''N4IgziBcoC4J4AcCmUQHsBmGkCcQBpwATBVANwF4AGEAX0IGtUBBVt9jzr7riuoA''"

definition invite_object :: jsval where
  "invite_object = JObj [(js ''s'', offer_sdp), (js ''k'', JStr zero_key64)]"

definition answer_text :: jstring where
  "answer_text = js ''{\"type\":\"answer\",\"sdp\":\"v=0\"}''"

definition guest_codec :: codec where
  "guest_codec =
     table_codec [(invite_token, invite_text)]
       [(answer_text, answer_sdp), (invite_text, invite_object)]"

definition empty_object_codec :: codec where
  "empty_object_codec =
     table_codec [(js ''N4XyA'', js ''{}''), (js ''{'', [])] [(js ''{}'', JObj [])]"

definition hello_codec :: codec where
  "hello_codec = table_codec [(js ''BYUwNmD2Q'', js ''hello'')] []"

definition short_key_text :: jstring where
  "short_key_text = js ''{\"s\":{\"type\":\"offer\",\"sdp\":\"v=0\"},\"k\":\"AAAA\"}''"

definition short_key_token :: jstring where
  "short_key_token = js ''N4IgziBcoC4J4AcCmUQHsBmGkCcQBpwATBVANwF4AGEAX0IGtUBBV5uoA''"

definition short_key_codec :: codec where
  "short_key_codec =
     table_codec [(short_key_token, short_key_text)]
       [(short_key_text, JObj [(js ''s'', offer_sdp), (js ''k'', JStr (js ''AAAA''))])]"

definition zero_nonce :: "byte list" where
  "zero_nonce = [0, 0, 0, 0, 0, 0, 0, 0, 0, 0, 0, 0]"

definition one_nonce :: "byte list" where
  "one_nonce = [1, 1, 1, 1, 1, 1, 1, 1, 1, 1, 1, 1]"




section \<open>Bytes and code units\<close>

lemma byte_lt: "unat (b::byte) < 256"
  using unsigned_less[of b, where 'a=nat] by simp

lemma ucast_byte_roundtrip: "(ucast (ucast (b::byte) :: 16 word) :: byte) = b"
  using byte_lt[of b]
  by (simp add: word_unat_eq_iff unsigned_ucast_eq unsigned_take_bit_eq take_bit_nat_eq_self_iff)

lemma unat_ucast_byte: "unat (ucast (b::byte) :: 16 word) = unat b"
  using byte_lt[of b]
  by (simp add: unsigned_ucast_eq unsigned_take_bit_eq take_bit_nat_eq_self_iff)

lemma of_nat_unat_byte: "(of_nat (unat (a::byte)) :: byte) = a"
  by simp

section \<open>Base64: decoding undoes encoding\<close>

lemma index_of_nth: "distinct xs \<Longrightarrow> n < length xs \<Longrightarrow> index_of (xs ! n) xs = Some n"
proof (induction xs arbitrary: n)
  case Nil
  then show ?case by simp
next
  case (Cons x xs)
  show ?case
  proof (cases n)
    case 0
    then show ?thesis by simp
  next
    case (Suc m)
    with Cons.prems have "xs ! m \<in> set xs" "x \<notin> set xs" by auto
    then have "xs ! m \<noteq> x" by auto
    with Suc Cons show ?thesis by simp
  qed
qed

lemma b64_alphabet_length: "length b64_alphabet = 64"
  by (simp add: b64_alphabet_def js_def)

lemma b64_alphabet_distinct: "distinct b64_alphabet"
  by (simp add: b64_alphabet_def js_def)

lemma b64_alphabet_props: "\<forall>c \<in> set b64_alphabet. \<not> ascii_whitespace c \<and> c \<noteq> b64_pad"
  by (simp add: b64_alphabet_def js_def ascii_whitespace_def b64_pad_def)

lemma b64_index_char: "n < 64 \<Longrightarrow> b64_index (b64_char n) = Some n"
  by (simp add: b64_index_def b64_char_def index_of_nth b64_alphabet_distinct b64_alphabet_length)

lemma b64_char_not_ws: "n < 64 \<Longrightarrow> \<not> ascii_whitespace (b64_char n)"
  using b64_alphabet_props nth_mem[of n b64_alphabet]
  by (simp add: b64_char_def b64_alphabet_length)

lemma b64_char_not_pad: "n < 64 \<Longrightarrow> b64_char n \<noteq> b64_pad"
  using b64_alphabet_props nth_mem[of n b64_alphabet]
  by (simp add: b64_char_def b64_alphabet_length)

lemma b64_pad_not_ws: "\<not> ascii_whitespace b64_pad"
  by (simp add: ascii_whitespace_def b64_pad_def)

lemma b64_sextets_lt: "s \<in> set (b64_sextets bs) \<Longrightarrow> s < 64"
proof (induction bs arbitrary: s rule: b64_sextets.induct)
  case 1
  then show ?case by simp
next
  case (2 a)
  have "unat a div 4 < 64" "unat a mod 4 * 16 < 64" using byte_lt[of a] by simp_all
  with 2 show ?case by auto
next
  case (3 a b)
  have "unat a div 4 < 64" "unat a mod 4 * 16 + unat b div 16 < 64" "unat b mod 16 * 4 < 64"
    using byte_lt[of a] byte_lt[of b] by simp_all
  with 3 show ?case by auto
next
  case (4 a b c rest)
  have "unat a div 4 < 64" "unat a mod 4 * 16 + unat b div 16 < 64"
    "unat b mod 16 * 4 + unat c div 64 < 64" "unat c mod 64 < 64"
    using byte_lt[of a] byte_lt[of b] byte_lt[of c] by simp_all
  with 4 show ?case by auto
qed

lemma b64_sextets_length: "length (b64_sextets bs) mod 4 \<noteq> Suc 0"
  by (induction bs rule: b64_sextets.induct) simp_all

lemma b64_encode_split: "b64_encode bs = map b64_char (b64_sextets bs) @ b64_padding bs"
  by (induction bs rule: b64_encode.induct) simp_all

lemma b64_encode_length: "length (b64_encode bs) mod 4 = 0"
  by (induction bs rule: b64_encode.induct) simp_all

lemma b64_padding_cases:
  "b64_padding bs = [] \<or> b64_padding bs = [b64_pad] \<or> b64_padding bs = [b64_pad, b64_pad]"
  by (induction bs rule: b64_padding.induct) simp_all

lemma b64_encode_no_ws: "filter (\<lambda>c. \<not> ascii_whitespace c) (b64_encode bs) = b64_encode bs"
proof -
  have "\<forall>c \<in> set (b64_padding bs). \<not> ascii_whitespace c"
    by (induction bs rule: b64_padding.induct) (simp_all add: b64_pad_not_ws)
  moreover have "\<forall>c \<in> set (map b64_char (b64_sextets bs)). \<not> ascii_whitespace c"
    using b64_sextets_lt b64_char_not_ws by auto
  ultimately show ?thesis by (simp add: b64_encode_split)
qed

lemma strip_padding_append:
  assumes "\<forall>c \<in> set xs. c \<noteq> b64_pad"
    and "ps = [] \<or> ps = [b64_pad] \<or> ps = [b64_pad, b64_pad]"
    and "length (xs @ ps) mod 4 = 0"
  shows "strip_padding (xs @ ps) = xs"
proof -
  have last_ok: "xs \<noteq> [] \<Longrightarrow> last xs \<noteq> b64_pad" using assms(1) by auto
  consider "ps = []" | "ps = [b64_pad]" | "ps = [b64_pad, b64_pad]" using assms(2) by blast
  then show ?thesis
  proof cases
    case 1
    show ?thesis
    proof (cases "rev xs")
      case Nil
      with 1 show ?thesis by (simp add: strip_padding_def)
    next
      case (Cons p r)
      then have "xs \<noteq> []" "last xs = p" by (auto simp: last_rev[symmetric] simp del: last_rev)
      with last_ok have "p \<noteq> b64_pad" by simp
      with 1 Cons show ?thesis by (cases r) (simp_all add: strip_padding_def)
    qed
  next
    case 2
    show ?thesis
    proof (cases "rev xs")
      case Nil
      with 2 assms(3) show ?thesis by simp
    next
      case (Cons q r)
      then have "xs \<noteq> []" "last xs = q" by (auto simp: last_rev[symmetric] simp del: last_rev)
      with last_ok have "q \<noteq> b64_pad" by simp
      then have "strip_padding (xs @ ps) = rev (q # r)"
        using 2 Cons assms(3) by (simp add: strip_padding_def)
      also have "rev (q # r) = xs" using Cons by (metis rev_rev_ident)
      finally show ?thesis .
    qed
  next
    case 3
    then show ?thesis using assms(3) by (simp add: strip_padding_def)
  qed
qed

lemma sextets_value:
  "(a div 4) * 262144 + (a mod 4 * 16 + b div 16) * 4096 + (b mod 16 * 4 + c div 64) * 64
     + c mod 64 = a * 65536 + b * 256 + (c::nat)"
proof -
  obtain qa ra where a: "a = qa * 4 + ra" "a div 4 = qa" "a mod 4 = ra"
    by (metis div_mult_mod_eq)
  obtain qb rb where b: "b = qb * 16 + rb" "b div 16 = qb" "b mod 16 = rb"
    by (metis div_mult_mod_eq)
  have A: "(a div 4) * 262144 + (a mod 4) * 65536 = a * 65536"
    unfolding a(2,3) by (subst a(1)) simp
  have B: "(b div 16) * 4096 + (b mod 16) * 256 = b * 256"
    unfolding b(2,3) by (subst b(1)) simp
  have C: "(c div 64) * 64 + c mod 64 = c" by simp
  have "(a div 4) * 262144 + (a mod 4 * 16 + b div 16) * 4096 + (b mod 16 * 4 + c div 64) * 64
          + c mod 64
      = ((a div 4) * 262144 + (a mod 4) * 65536) + ((b div 16) * 4096 + (b mod 16) * 256)
        + ((c div 64) * 64 + c mod 64)"
    by (simp add: algebra_simps)
  also have "\<dots> = a * 65536 + b * 256 + c"
    unfolding A B C by simp
  finally show ?thesis .
qed

lemma sextets_value2:
  "((a div 4) * 4096 + (a mod 4 * 16 + b div 16) * 64 + b mod 16 * 4) div 4 = a * 256 + (b::nat)"
proof -
  obtain qa ra where a: "a = qa * 4 + ra" "a div 4 = qa" "a mod 4 = ra"
    by (metis div_mult_mod_eq)
  obtain qb rb where b: "b = qb * 16 + rb" "b div 16 = qb" "b mod 16 = rb"
    by (metis div_mult_mod_eq)
  have "(a div 4) * 4096 + (a mod 4 * 16 + b div 16) * 64 + b mod 16 * 4 = (a * 256 + b) * 4"
    unfolding a(2,3) b(2,3) by (subst a(1), subst b(1)) simp
  then show ?thesis by simp
qed

lemma sextets_value1: "((a div 4) * 64 + a mod 4 * 16) div 16 = (a::nat)"
proof -
  obtain qa ra where a: "a = qa * 4 + ra" "a div 4 = qa" "a mod 4 = ra"
    by (metis div_mult_mod_eq)
  have "(a div 4) * 64 + a mod 4 * 16 = a * 16"
    unfolding a(2,3) by (subst a(1)) simp
  then show ?thesis by simp
qed

lemma group3_bytes:
  assumes "a < 256" "b < 256" "c < (256::nat)"
  shows "(a * 65536 + b * 256 + c) div 65536 = a"
    and "(a * 65536 + b * 256 + c) div 256 mod 256 = b"
    and "(a * 65536 + b * 256 + c) mod 256 = c"
proof -
  have "b * 256 + c < 65536" using assms by simp
  then show "(a * 65536 + b * 256 + c) div 65536 = a" by simp
  have "(a * 65536 + b * 256 + c) div 256 = a * 256 + b" using assms by simp
  then show "(a * 65536 + b * 256 + c) div 256 mod 256 = b" using assms by simp
  have "a * 65536 + b * 256 + c = (a * 256 + b) * 256 + c" by simp
  then show "(a * 65536 + b * 256 + c) mod 256 = c" using assms by (metis mod_mult_self3 mod_less)
qed

lemma group2_bytes:
  assumes "b < (256::nat)"
  shows "(a * 256 + b) div 256 = a" and "(a * 256 + b) mod 256 = b"
  using assms by simp_all

lemma b64_decode_sextets: "b64_decode (b64_sextets bs) = bs"
proof (induction bs rule: b64_sextets.induct)
  case 1
  show ?case by simp
next
  case (2 a)
  show ?case
    by (simp only: b64_sextets.simps b64_decode.simps sextets_value1 of_nat_unat_byte)
next
  case (3 a b)
  show ?case
    by (simp only: b64_sextets.simps b64_decode.simps sextets_value2 Let_def
        group2_bytes[OF byte_lt] of_nat_unat_byte)
next
  case (4 a b c rest)
  show ?case
    by (simp only: b64_sextets.simps b64_decode.simps append_Cons append_Nil sextets_value
        Let_def group3_bytes[OF byte_lt byte_lt byte_lt] of_nat_unat_byte 4)
qed

lemma atob_b64_encode: "atob (b64_encode bs) = Inr (map ucast bs)"
proof -
  let ?body = "map b64_char (b64_sextets bs)"
  have nopad: "\<forall>c \<in> set ?body. c \<noteq> b64_pad"
    using b64_sextets_lt b64_char_not_pad by auto
  have len: "length (?body @ b64_padding bs) mod 4 = 0"
    using b64_encode_length[of bs] by (simp add: b64_encode_split)
  have strip: "strip_padding (b64_encode bs) = ?body"
    unfolding b64_encode_split
    by (rule strip_padding_append[OF nopad b64_padding_cases len])
  have valid: "\<forall>c \<in> set ?body. b64_index c \<noteq> None"
    using b64_sextets_lt b64_index_char by auto
  have idx: "map ((\<lambda>c. the (b64_index c)) \<circ> b64_char) (b64_sextets bs) = b64_sextets bs"
    using b64_sextets_lt b64_index_char by (simp add: map_idI)
  show ?thesis
    using valid b64_sextets_length[of bs]
    by (simp add: atob_def b64_encode_no_ws strip idx b64_decode_sextets Let_def list_ex_iff)
qed

lemma arrayBufferToBase64_encode: "arrayBufferToBase64 b = Inr (b64_encode b)"
proof -
  have "\<forall>c \<in> set (map ucast b :: jstring). \<not> 255 < unat c"
    using byte_lt by (auto simp: unat_ucast_byte not_less less_Suc_eq_le[symmetric])
  then show ?thesis
    by (simp add: arrayBufferToBase64_def btoa_def ucast_byte_roundtrip comp_def list_ex_iff
        del: set_map)
qed

lemma base64ToArrayBuffer_encode: "base64ToArrayBuffer (b64_encode b) = Inr b"
  by (simp add: base64ToArrayBuffer_def atob_b64_encode ucast_byte_roundtrip comp_def)

section \<open>UTF-8: decoding undoes encoding\<close>

lemma unat_of_nat_byte: "n < 256 \<Longrightarrow> unat (of_nat n :: byte) = n"
  by (simp add: unat_of_nat)

lemma mod_offset: "x < m \<Longrightarrow> (m * k + x) mod m = (x::nat)"
  by simp

lemma div_4096: "(n::nat) div 4096 = n div 64 div 64"
  using div_mult2_eq[of n 64 64] by simp

lemma div_262144: "(n::nat) div 262144 = n div 4096 div 64"
  using div_mult2_eq[of n 4096 64] by simp

lemma utf8_run_1:
  assumes "cp < 0x80"
  shows "utf8_run utf8_init (utf8_encode_scalar cp @ rest) = cp # utf8_run utf8_init rest"
  using assms
  by (simp add: utf8_encode_scalar_def utf8_step_def utf8_lead_def utf8_init_def unat_of_nat_byte)

lemma utf8_run_2:
  assumes "0x80 \<le> cp" "cp < 0x800"
  shows "utf8_run utf8_init (utf8_encode_scalar cp @ rest) = cp # utf8_run utf8_init rest"
proof -
  define q r where "q = cp div 64" and "r = cp mod 64"
  define B0 B1 :: byte where "B0 = of_nat (0xC0 + q)" and "B1 = of_nat (0x80 + r)"
  have cp: "cp = q * 64 + r" and r: "r < 64" and q: "2 \<le> q" "q < 32"
    using assms by (simp_all add: q_def r_def)
  have b0: "unat B0 = 0xC0 + q" unfolding B0_def by (rule unat_of_nat_byte) (use q in simp)
  have b1: "unat B1 = 0x80 + r" unfolding B1_def by (rule unat_of_nat_byte) (use r in simp)
  have m0: "(0xC0 + q) mod 32 = q" using mod_offset[of q 32 6] q by simp
  have m1: "(0x80 + r) mod 64 = r" using mod_offset[of r 64 2] r by simp
  have enc: "utf8_encode_scalar cp = [B0, B1]"
    using assms by (simp add: utf8_encode_scalar_def q_def r_def B0_def B1_def)
  show ?thesis
    unfolding enc using q r
    by (simp add: b0 b1 utf8_step_def utf8_lead_def utf8_init_def m0 m1 cp)
qed

lemma utf8_run_3:
  assumes "0x800 \<le> cp" "cp < 0x10000" "\<not> (0xD800 \<le> cp \<and> cp \<le> 0xDFFF)"
  shows "utf8_run utf8_init (utf8_encode_scalar cp @ rest) = cp # utf8_run utf8_init rest"
proof -
  define p q r where "p = cp div 4096" and "q = cp div 64 mod 64" and "r = cp mod 64"
  define B0 B1 B2 :: byte
    where "B0 = of_nat (0xE0 + p)" and "B1 = of_nat (0x80 + q)" and "B2 = of_nat (0x80 + r)"
  have r: "r < 64" and q: "q < 64" and p: "p < 16"
    using assms by (simp_all add: p_def q_def r_def)
  have cpq: "cp div 64 = p * 64 + q"
    unfolding p_def q_def div_4096 by simp
  have cp: "cp = (p * 64 + q) * 64 + r"
    unfolding cpq[symmetric] r_def by simp
  have lo: "p = 0 \<longrightarrow> \<not> q < 32" using assms(1) cp r by auto
  have hi: "p = 13 \<longrightarrow> \<not> 31 < q" using assms(3) cp r q by auto
  have b0: "unat B0 = 0xE0 + p" unfolding B0_def by (rule unat_of_nat_byte) (use p in simp)
  have b1: "unat B1 = 0x80 + q" unfolding B1_def by (rule unat_of_nat_byte) (use q in simp)
  have b2: "unat B2 = 0x80 + r" unfolding B2_def by (rule unat_of_nat_byte) (use r in simp)
  have m0: "(0xE0 + p) mod 16 = p" using mod_offset[of p 16 14] p by simp
  have m1: "(0x80 + q) mod 64 = q" using mod_offset[of q 64 2] q by simp
  have m2: "(0x80 + r) mod 64 = r" using mod_offset[of r 64 2] r by simp
  have enc: "utf8_encode_scalar cp = [B0, B1, B2]"
    using assms by (simp add: utf8_encode_scalar_def p_def q_def r_def B0_def B1_def B2_def)
  show ?thesis
    unfolding enc using p q r lo hi
    by (simp add: b0 b1 b2 utf8_step_def utf8_lead_def utf8_init_def m0 m1 m2 cp)
qed

lemma utf8_run_4:
  assumes "0x10000 \<le> cp" "cp < 0x110000"
  shows "utf8_run utf8_init (utf8_encode_scalar cp @ rest) = cp # utf8_run utf8_init rest"
proof -
  define o' p q r where "o' = cp div 262144" and "p = cp div 4096 mod 64"
    and "q = cp div 64 mod 64" and "r = cp mod 64"
  define B0 B1 B2 B3 :: byte
    where "B0 = of_nat (0xF0 + o')" and "B1 = of_nat (0x80 + p)"
      and "B2 = of_nat (0x80 + q)" and "B3 = of_nat (0x80 + r)"
  have r: "r < 64" and q: "q < 64" and p: "p < 64" and o: "o' < 5"
    using assms by (simp_all add: o'_def p_def q_def r_def)
  have cpp: "cp div 4096 = o' * 64 + p"
    unfolding o'_def p_def div_262144 by simp
  have cpq: "cp div 64 = (o' * 64 + p) * 64 + q"
    unfolding cpp[symmetric] q_def div_4096 by simp
  have cp: "cp = ((o' * 64 + p) * 64 + q) * 64 + r"
    unfolding cpq[symmetric] r_def by simp
  have lo: "o' = 0 \<longrightarrow> \<not> p < 16" using assms(1) cp r q p by auto
  have hi: "o' = 4 \<longrightarrow> \<not> 15 < p" using assms(2) cp r q p by auto
  have b0: "unat B0 = 0xF0 + o'" unfolding B0_def by (rule unat_of_nat_byte) (use o in simp)
  have b1: "unat B1 = 0x80 + p" unfolding B1_def by (rule unat_of_nat_byte) (use p in simp)
  have b2: "unat B2 = 0x80 + q" unfolding B2_def by (rule unat_of_nat_byte) (use q in simp)
  have b3: "unat B3 = 0x80 + r" unfolding B3_def by (rule unat_of_nat_byte) (use r in simp)
  have m0: "(0xF0 + o') mod 8 = o'" using mod_offset[of o' 8 30] o by simp
  have m1: "(0x80 + p) mod 64 = p" using mod_offset[of p 64 2] p by simp
  have m2: "(0x80 + q) mod 64 = q" using mod_offset[of q 64 2] q by simp
  have m3: "(0x80 + r) mod 64 = r" using mod_offset[of r 64 2] r by simp
  have enc: "utf8_encode_scalar cp = [B0, B1, B2, B3]"
    using assms
    by (simp add: utf8_encode_scalar_def o'_def p_def q_def r_def B0_def B1_def B2_def B3_def)
  show ?thesis
    unfolding enc using o p q r lo hi
    by (simp add: b0 b1 b2 b3 utf8_step_def utf8_lead_def utf8_init_def m0 m1 m2 m3 cp)
qed

lemma utf8_run_scalar:
  assumes "scalar_value cp"
  shows "utf8_run utf8_init (utf8_encode_scalar cp @ rest) = cp # utf8_run utf8_init rest"
proof -
  consider "cp < 0x80" | "0x80 \<le> cp" "cp < 0x800" | "0x800 \<le> cp" "cp < 0x10000"
    | "0x10000 \<le> cp" by linarith
  then show ?thesis
  proof cases
    case 1 then show ?thesis by (rule utf8_run_1)
  next
    case 2 then show ?thesis by (rule utf8_run_2)
  next
    case 3 then show ?thesis using assms by (intro utf8_run_3) (simp_all add: scalar_value_def)
  next
    case 4 then show ?thesis using assms by (intro utf8_run_4) (simp_all add: scalar_value_def)
  qed
qed

lemma utf8_init_needed: "bytes_needed utf8_init = 0"
  by (simp add: utf8_init_def)

lemma utf8_run_encode:
  "\<forall>cp \<in> set cps. scalar_value cp \<Longrightarrow>
   utf8_run utf8_init (concat (map utf8_encode_scalar cps)) = cps"
  by (induction cps) (simp_all add: utf8_run_scalar utf8_init_needed)

lemma to_scalars_valid: "cp \<in> set (to_scalars s) \<Longrightarrow> scalar_value cp"
proof (induction s arbitrary: cp rule: to_scalars.induct)
  case 1
  then show ?case by simp
next
  case (2 c)
  have "unat c < 65536" using unsigned_less[of c, where 'a=nat] by simp
  with 2 show ?case
    by (auto simp: scalar_value_def is_high_surrogate_def is_low_surrogate_def split: if_splits)
next
  case (3 c d rest)
  have c: "unat c < 65536" using unsigned_less[of c, where 'a=nat] by simp
  have pair: "scalar_value (0x10000 + unat c mod 1024 * 1024 + unat d mod 1024)"
  proof -
    have "unat c mod 1024 < 1024" "unat d mod 1024 < 1024" by simp_all
    then have "unat c mod 1024 * 1024 + unat d mod 1024 < 1048576" by linarith
    then show ?thesis by (simp add: scalar_value_def)
  qed
  have fffd: "scalar_value 0xFFFD" by (simp add: scalar_value_def)
  have single: "\<not> is_high_surrogate c \<Longrightarrow> \<not> is_low_surrogate c \<Longrightarrow> scalar_value (unat c)"
    using c by (auto simp: scalar_value_def is_high_surrogate_def is_low_surrogate_def)
  from 3 pair fffd single show ?case
    by (auto split: if_splits)
qed

lemma from_scalar_pair:
  assumes "is_high_surrogate c" "is_low_surrogate d"
  shows "from_scalar (0x10000 + unat c mod 1024 * 1024 + unat d mod 1024) = [c, d]"
proof -
  define a b where "a = unat c mod 1024" and "b = unat d mod 1024"
  have a: "a < 1024" and b: "b < 1024" by (simp_all add: a_def b_def)
  have c: "unat c = 0xD800 + a"
  proof -
    have "unat c div 1024 = 54"
      using assms(1) by (intro div_nat_eqI) (simp_all add: is_high_surrogate_def)
    then show ?thesis using div_mult_mod_eq[of "unat c" 1024] by (simp add: a_def)
  qed
  have d: "unat d = 0xDC00 + b"
  proof -
    have "unat d div 1024 = 55"
      using assms(2) by (intro div_nat_eqI) (simp_all add: is_low_surrogate_def)
    then show ?thesis using div_mult_mod_eq[of "unat d" 1024] by (simp add: b_def)
  qed
  have "(a * 1024 + b) div 1024 = a" "(a * 1024 + b) mod 1024 = b" using b by simp_all
  moreover have "(of_nat (unat c) :: 16 word) = c" "(of_nat (unat d) :: 16 word) = d" by simp_all
  ultimately show ?thesis
    unfolding from_scalar_def a_def[symmetric] b_def[symmetric]
    by (simp add: c[symmetric] d[symmetric])
qed

lemma from_scalar_single: "from_scalar (unat (c::16 word)) = [c]"
  using unsigned_less[of c, where 'a=nat] by (simp add: from_scalar_def)

lemma from_to_scalars: "well_formed s \<Longrightarrow> concat (map from_scalar (to_scalars s)) = s"
  by (induction s rule: to_scalars.induct)
     (auto simp: from_scalar_pair from_scalar_single)

lemma to_scalars_bom:
  "s \<noteq> [] \<Longrightarrow> hd s \<noteq> 0xFEFF \<Longrightarrow> strip_bom (to_scalars s) = to_scalars s"
proof (induction s rule: to_scalars.induct)
  case 1
  then show ?case by simp
next
  case (2 c)
  then have "unat c \<noteq> 0xFEFF" by (simp add: word_unat_eq_iff)
  then show ?case by (simp add: strip_bom_def)
next
  case (3 c d rest)
  then have "unat c \<noteq> 0xFEFF" by (simp add: word_unat_eq_iff)
  then show ?case by (simp add: strip_bom_def)
qed

lemma text_roundtrip:
  assumes "well_formed s" and "s = [] \<or> hd s \<noteq> 0xFEFF"
  shows "TextDecoder_decode (TextEncoder_encode s) = s"
proof -
  have run: "utf8_run utf8_init (TextEncoder_encode s) = to_scalars s"
    unfolding TextEncoder_encode_def by (rule utf8_run_encode) (simp add: to_scalars_valid)
  have "strip_bom (to_scalars s) = to_scalars s"
    using assms(2) to_scalars_bom by (cases "s = []") (auto simp: strip_bom_def)
  then show ?thesis
    by (simp add: TextDecoder_decode_def run from_to_scalars assms(1))
qed

lemma from_scalar_replacement: "from_scalar 0xFFFD = [0xFFFD]"
  by (simp add: from_scalar_def)

lemma from_to_scalars_any: "concat (map from_scalar (to_scalars s)) = toWellFormed s"
  by (induction s rule: to_scalars.induct)
     (auto simp: from_scalar_pair from_scalar_single from_scalar_replacement)

lemma length_toWellFormed: "length (toWellFormed s) = length s"
  by (induction s rule: toWellFormed.induct) auto

lemma not_surrogate_replacement:
  "\<not> is_high_surrogate 0xFFFD" "\<not> is_low_surrogate 0xFFFD"
  by (simp_all add: is_high_surrogate_def is_low_surrogate_def)

lemma toWellFormed_fixed: "toWellFormed s = s \<longleftrightarrow> well_formed s"
proof (induction s rule: toWellFormed.induct)
  case 1
  show ?case by simp
next
  case (2 c)
  show ?case using not_surrogate_replacement by auto
next
  case (3 c d rest)
  then show ?case using not_surrogate_replacement by auto
qed

lemma bom_scalar: "unat (c::16 word) = 0xFEFF \<longleftrightarrow> c = 0xFEFF"
  by (simp add: word_unat_eq_iff)

lemma not_surrogate_bom: "\<not> is_high_surrogate 0xFEFF" "\<not> is_low_surrogate 0xFEFF"
  by (simp_all add: is_high_surrogate_def is_low_surrogate_def)

lemma from_scalar_bom: "from_scalar 0xFEFF = [0xFEFF]"
  by (simp add: from_scalar_def)

lemma strip_bom_scalars:
  "concat (map from_scalar (strip_bom (to_scalars s))) = without_bom (toWellFormed s)"
proof (cases s rule: to_scalars.cases)
  case 1
  then show ?thesis by (simp add: strip_bom_def without_bom_def)
next
  case (2 c)
  then show ?thesis
    using not_surrogate_bom
    by (auto simp: strip_bom_def without_bom_def bom_scalar from_scalar_single
        from_scalar_replacement)
next
  case (3 c d rest)
  have big: "0x10000 + unat c mod 1024 * 1024 + unat d mod 1024 \<noteq> 0xFEFF" by simp
  have hi: "is_high_surrogate c \<Longrightarrow> c \<noteq> 0xFEFF" using not_surrogate_bom by auto
  show ?thesis
    unfolding 3
    using not_surrogate_bom hi
    by (auto simp: strip_bom_def without_bom_def bom_scalar from_scalar_single
        from_scalar_replacement from_scalar_pair from_to_scalars_any)
qed

lemma text_received:
  "TextDecoder_decode (TextEncoder_encode s) = without_bom (toWellFormed s)"
proof -
  have run: "utf8_run utf8_init (TextEncoder_encode s) = to_scalars s"
    unfolding TextEncoder_encode_def by (rule utf8_run_encode) (simp add: to_scalars_valid)
  show ?thesis
    by (simp add: TextDecoder_decode_def run strip_bom_scalars)
qed

lemma received_unchanged:
  "without_bom (toWellFormed s) = s \<longleftrightarrow> well_formed s \<and> (s = [] \<or> hd s \<noteq> 0xFEFF)"
proof (cases "toWellFormed s")
  case Nil
  then have "s = []" using length_toWellFormed[of s] by simp
  then show ?thesis by (simp add: without_bom_def)
next
  case (Cons c rest)
  then have ne: "s \<noteq> []" by auto
  show ?thesis
  proof (cases "c = 0xFEFF")
    case True
    have "length rest < length s" using Cons length_toWellFormed[of s] by simp
    then have "rest \<noteq> s" by auto
    moreover have "hd s = 0xFEFF" if "well_formed s"
      using that Cons True toWellFormed_fixed[of s] by auto
    ultimately show ?thesis using Cons True ne by (auto simp: without_bom_def)
  next
    case False
    have "hd s \<noteq> 0xFEFF" if "well_formed s"
      using that Cons False toWellFormed_fixed[of s] by auto
    then show ?thesis using Cons False ne toWellFormed_fixed[of s]
      by (auto simp: without_bom_def)
  qed
qed

section \<open>The security module: encryption and decryption\<close>

lemma length_draw: "length (getRandomValues source n) = n"
  by (simp add: getRandomValues_def)

lemma encryptData_ok:
  assumes "subtle_encrypt wc k (getRandomValues source 12) (TextEncoder_encode p) = Inr c"
  shows "encryptData wc source p k =
           Inr \<lparr>iv = b64_encode (getRandomValues source 12), data = b64_encode c\<rparr>"
  using assms by (simp add: encryptData_def arrayBufferToBase64_encode)

lemma decryptData_encoded:
  "decryptData wc (b64_encode c) (b64_encode n) k =
     (case subtle_decrypt wc k n c of Inl e \<Rightarrow> Inl e | Inr d \<Rightarrow> Inr (TextDecoder_decode d))"
  by (simp add: decryptData_def base64ToArrayBuffer_encode)

lemma b64_encode_inj:
  assumes "b64_encode x = b64_encode y"
  shows "x = y"
proof -
  have "Inr x = base64ToArrayBuffer (b64_encode x)" by (simp only: base64ToArrayBuffer_encode)
  also have "\<dots> = base64ToArrayBuffer (b64_encode y)" by (simp only: assms)
  also have "\<dots> = Inr y" by (simp only: base64ToArrayBuffer_encode)
  finally show ?thesis by simp
qed

lemma decryptData_auth_failure:
  assumes "base64ToArrayBuffer ivStr = Inr nonce"
    and "base64ToArrayBuffer encryptedData = Inr ciphertext"
    and "subtle_decrypt wc key nonce ciphertext = Inl e"
  shows "decryptData wc encryptedData ivStr key = Inl e"
  using assms by (simp add: decryptData_def)

lemma ucast_code_unit:
  assumes "unat (c::16 word) < 256"
  shows "(ucast (ucast c :: byte) :: 16 word) = c"
  using assms
  by (simp add: word_unat_eq_iff unsigned_ucast_eq unsigned_take_bit_eq take_bit_nat_eq_self_iff)

lemma atob_btoa:
  assumes "btoa s = Inr t"
  shows "atob t = Inr s"
proof -
  from assms have small: "\<forall>c \<in> set s. unat c < 256" and t: "t = b64_encode (map ucast s)"
    by (auto simp: btoa_def list_ex_iff not_less split: if_splits)
  have "map (\<lambda>c. (ucast (ucast c :: byte) :: 16 word)) s = s"
    using small by (simp add: map_idI ucast_code_unit)
  then show ?thesis by (simp add: t atob_b64_encode comp_def)
qed

lemma bom_encode: "TextEncoder_encode [0xFEFF] = [0xEF, 0xBB, 0xBF]"
  by (simp add: TextEncoder_encode_def utf8_encode_scalar_def is_high_surrogate_def
      is_low_surrogate_def)

lemma bom_decode: "TextDecoder_decode [0xEF, 0xBB, 0xBF] = []"
  by (simp add: TextDecoder_decode_def utf8_step_def utf8_lead_def utf8_init_def strip_bom_def)

lemma bom_lost_any_cipher:
  assumes "subtle_encrypt wc k (getRandomValues src 12) (TextEncoder_encode [0xFEFF]) = Inr c"
    and "subtle_decrypt wc k (getRandomValues src 12) c = Inr (TextEncoder_encode [0xFEFF])"
  shows "\<exists>m. encryptData wc src [0xFEFF] k = Inr m \<and> decryptData wc (data m) (iv m) k = Inr []"
  using assms by (simp add: encryptData_ok decryptData_encoded bom_encode bom_decode)

lemma lone_surrogate_encode: "TextEncoder_encode [0xD800] = [0xEF, 0xBF, 0xBD]"
  by (simp add: TextEncoder_encode_def utf8_encode_scalar_def is_high_surrogate_def
      is_low_surrogate_def)

lemma replacement_decode: "TextDecoder_decode [0xEF, 0xBF, 0xBD] = [0xFFFD]"
  by (simp add: TextDecoder_decode_def utf8_step_def utf8_lead_def utf8_init_def strip_bom_def
      from_scalar_def)

lemma lone_surrogate_lost_any_cipher:
  assumes "subtle_encrypt wc k (getRandomValues src 12) (TextEncoder_encode [0xD800]) = Inr c"
    and "subtle_decrypt wc k (getRandomValues src 12) c = Inr (TextEncoder_encode [0xD800])"
  shows "\<exists>m. encryptData wc src [0xD800] k = Inr m \<and>
           decryptData wc (data m) (iv m) k = Inr [0xFFFD]"
  using assms
  by (simp add: encryptData_ok decryptData_encoded lone_surrogate_encode replacement_decode)


section \<open>The link module: what \<open>parseLinkHash\<close> returns\<close>

lemma parseLinkHash_returns:
  "parseLinkHash lib hash =
     Inr (case decompressFromEncodedURIComponent lib hash of
            Inl e \<Rightarrow> JNull
          | Inr None \<Rightarrow> JNull
          | Inr (Some text) \<Rightarrow>
              if text = [] then JNull
              else (case JSON_parse lib text of Inl e \<Rightarrow> JNull | Inr v \<Rightarrow> v))"
  by (simp add: parseLinkHash_def parseLinkHash_call_def parseLinkHash_try_def
      split: sum.splits option.splits)

lemma parseLinkHash_logs:
  "parseLinkHash_log lib hash =
     (case decompressFromEncodedURIComponent lib hash of
        Inl e \<Rightarrow> [''Link parse error'']
      | Inr None \<Rightarrow> []
      | Inr (Some text) \<Rightarrow>
          if text = [] then []
          else (case JSON_parse lib text of Inl e \<Rightarrow> [''Link parse error''] | Inr v \<Rightarrow> []))"
  by (simp add: parseLinkHash_log_def parseLinkHash_call_def parseLinkHash_try_def
      split: sum.splits option.splits)

lemma parseLinkHash_truthy_log:
  assumes "parseLinkHash lib hash = Inr v" and "truthy v"
  shows "parseLinkHash_log lib hash = []"
  using assms
  by (auto simp: parseLinkHash_def parseLinkHash_log_def parseLinkHash_call_def
      split: sum.splits)

lemma invite_fields_log:
  assumes "invite_fields lib hash = Some f"
  shows "parseLinkHash_log lib hash = []"
proof -
  obtain v where v: "parseLinkHash lib hash = Inr v" by (simp add: parseLinkHash_returns)
  with assms have "truthy v" by (auto simp: invite_fields_def split: if_splits)
  with v show ?thesis by (rule parseLinkHash_truthy_log)
qed

section \<open>The message handler\<close>

lemma dc_onmessage_state: "state (dc_onmessage pf dc fresh_id now e_data st) = state st"
  by (simp add: dc_onmessage_def split: sum.splits option.splits)










section \<open>Waiting for the gathering, and the tokens\<close>

lemma foldl_waitForIce_check:
  "foldl waitForIce_check w evs =
     (if listening w \<and> IceComplete \<in> set evs
      then w\<lparr>listening := False, resolved := resolved w + 1\<rparr> else w)"
proof (induction evs arbitrary: w)
  case Nil
  show ?case by simp
next
  case (Cons s evs)
  have "foldl waitForIce_check w (s # evs) = foldl waitForIce_check (waitForIce_check w s) evs"
    by simp
  also have "\<dots> = (if listening (waitForIce_check w s) \<and> IceComplete \<in> set evs
      then (waitForIce_check w s)\<lparr>listening := False, resolved := resolved (waitForIce_check w s) + 1\<rparr>
      else waitForIce_check w s)"
    by (rule Cons)
  also have "\<dots> = (if listening w \<and> IceComplete \<in> set (s # evs)
      then w\<lparr>listening := False, resolved := resolved w + 1\<rparr> else w)"
    by (simp add: waitForIce_check_def)
  finally show ?case .
qed

lemma waitForIce_result:
  "waitForIce conn =
     (if iceGatheringState conn = IceComplete \<or> IceComplete \<in> set (iceEvents conn)
      then \<lparr>listening = False, resolved = 1\<rparr> else \<lparr>listening = True, resolved = 0\<rparr>)"
  by (simp add: waitForIce_def foldl_waitForIce_check waitForIce_start_def)

lemma waitForIce_resolved:
  "resolved (waitForIce conn) \<noteq> 0 \<longleftrightarrow>
     iceGatheringState conn = IceComplete \<or> IceComplete \<in> set (iceEvents conn)"
  by (simp add: waitForIce_result)

lemma startHost_try_token:
  assumes "startHost_try pf rk st = (oc, st')"
  shows "(oc = Returned \<and> resolved (waitForIce (pc pf)) \<noteq> 0 \<and> state st' = HOST_WAITING) \<or>
         (oc \<noteq> Returned \<and> state st' = state st \<and> offerLink st' = offerLink st)"
  using assms
  by (auto simp: startHost_try_def setupDataChannel_def initPeer_def Let_def
      split: sum.splits option.splits if_splits)

lemma startHost_token:
  assumes "state (startHost pf st) = HOST_WAITING \<or> offerLink (startHost pf st) \<noteq> offerLink st"
  shows "resolved (waitForIce (pc pf)) \<noteq> 0"
proof -
  obtain oc st' where r: "startHost_try pf (sharedKey st) (st\<lparr>state := HOST_GENERATING\<rparr>) = (oc, st')"
    by (cases "startHost_try pf (sharedKey st) (st\<lparr>state := HOST_GENERATING\<rparr>)")
  from startHost_try_token[OF r] assms r show ?thesis
    by (cases oc) (auto simp: startHost_def)
qed

lemma handleGuestLoad_join_token:
  assumes "handleGuestLoad_join pf d k64 st = (oc, st')"
  shows "(oc = Returned \<and> resolved (waitForIce (pc pf)) \<noteq> 0 \<and> state st' = GUEST_ANSWER_READY) \<or>
         (oc \<noteq> Returned \<and> state st' = state st \<and> answerData st' = answerData st)"
  using assms
  by (auto simp: handleGuestLoad_join_def initPeer_def Let_def
      split: sum.splits option.splits if_splits)

lemma handleGuestLoad_try_token:
  assumes "handleGuestLoad_try pf hash st = (oc, st')" and "state st \<noteq> GUEST_ANSWER_READY"
  shows "(state st' = GUEST_ANSWER_READY \<or> answerData st' \<noteq> answerData st)
           \<longrightarrow> oc = Returned \<and> resolved (waitForIce (pc pf)) \<noteq> 0"
  using assms
  by (auto simp: handleGuestLoad_try_def Let_def split: sum.splits if_splits
      dest!: handleGuestLoad_join_token)

lemma handleGuestLoad_token:
  assumes "state (handleGuestLoad pf hash st) = GUEST_ANSWER_READY \<or>
           answerData (handleGuestLoad pf hash st) \<noteq> answerData st"
  shows "resolved (waitForIce (pc pf)) \<noteq> 0"
proof -
  let ?st = "st\<lparr>state := GUEST_PROCESSING\<rparr>"
  obtain oc st' where r: "handleGuestLoad_try pf hash ?st = (oc, st')"
    by (cases "handleGuestLoad_try pf hash ?st")
  from handleGuestLoad_try_token[OF r] assms r show ?thesis
    by (cases oc) (auto simp: handleGuestLoad_def)
qed

section \<open>The guest\<close>

lemma get_prop_truthy: "truthy v \<Longrightarrow> \<exists>x. get_prop v name = Inr x"
  by (cases v) (simp_all split: option.splits)

lemma handleGuestLoad_try_fields:
  "handleGuestLoad_try pf hash st =
     (case invite_fields (libs pf) hash of
        None \<Rightarrow>
          (Returned, st\<lparr>console := console st @ parseLinkHash_log (libs pf) hash,
                        alerts := alerts st @ [''Invalid Invite Link''], state := INIT\<rparr>)
      | Some (d, k64) \<Rightarrow> handleGuestLoad_join pf d k64 st)"
proof (cases "parseLinkHash (libs pf) hash")
  case (Inl e)
  then show ?thesis by (simp add: parseLinkHash_returns)
next
  case (Inr parsed)
  show ?thesis
  proof (cases "truthy parsed")
    case False
    with Inr show ?thesis by (simp add: handleGuestLoad_try_def invite_fields_def)
  next
    case True
    have log: "parseLinkHash_log (libs pf) hash = []"
      using Inr True by (rule parseLinkHash_truthy_log)
    obtain d k64 where "get_prop parsed (js ''s'') = Inr d" "get_prop parsed (js ''k'') = Inr k64"
      using get_prop_truthy[OF True] by blast
    with Inr True show ?thesis by (simp add: handleGuestLoad_try_def invite_fields_def log)
  qed
qed

lemma handleGuestLoad_invalid:
  assumes "invite_fields (libs pf) hash = None"
  shows "handleGuestLoad pf hash st
           = st\<lparr>state := INIT, alerts := alerts st @ [''Invalid Invite Link''],
                console := console st @ parseLinkHash_log (libs pf) hash\<rparr>"
  using assms by (simp add: handleGuestLoad_def handleGuestLoad_try_fields)

lemma handleGuestLoad_import_fails:
  assumes "invite_fields (libs pf) hash = Some (d, k64)"
    and "importKey (subtle pf) (to_string k64) = Inl e"
  shows "handleGuestLoad pf hash st
           = st\<lparr>state := INIT, alerts := alerts st @ [''Failed to join session''],
                console := console st @ [''error'']\<rparr>"
  using assms
  by (simp add: handleGuestLoad_def handleGuestLoad_try_fields handleGuestLoad_join_def)

lemma handleGuestLoad_rejected:
  assumes "invite_fields (libs pf) hash = Some (d, k64)"
    and "importKey (subtle pf) (to_string k64) = Inr key"
    and "setRemoteDescription (pc pf) d = Some e"
  shows "handleGuestLoad pf hash st
           = st\<lparr>state := INIT, alerts := alerts st @ [''Failed to join session''],
                console := console st @ [''error''], sharedKey := Some key,
                pcRef := Some \<lparr>remoteDescription = JNull\<rparr>\<rparr>"
  using assms
  by (simp add: handleGuestLoad_def handleGuestLoad_try_fields handleGuestLoad_join_def
      initPeer_def)

lemma handleGuestLoad_later_failure:
  assumes "invite_fields (libs pf) hash = Some (d, k64)"
    and "importKey (subtle pf) (to_string k64) = Inr key"
    and "setRemoteDescription (pc pf) d = None"
    and "createAnswer (pc pf) d = Inl e \<or>
         (\<exists>answer. createAnswer (pc pf) d = Inr answer \<and>
            (setLocalDescription (pc pf) answer = Some e \<or>
             (setLocalDescription (pc pf) answer = None \<and>
              resolved (waitForIce (pc pf)) \<noteq> 0 \<and>
              btoa (JSON_stringify (libs pf) (localDescription (pc pf) answer)) = Inl e)))"
  shows "handleGuestLoad pf hash st
           = st\<lparr>state := INIT, alerts := alerts st @ [''Failed to join session''],
                console := console st @ [''error''], sharedKey := Some key,
                pcRef := Some \<lparr>remoteDescription = d\<rparr>\<rparr>"
  using assms
  by (auto simp: handleGuestLoad_def handleGuestLoad_try_fields handleGuestLoad_join_def
      initPeer_def)

lemma handleGuestLoad_join_ready:
  assumes "handleGuestLoad_join pf d k64 st = (oc, st')" and "state st' = GUEST_ANSWER_READY"
    and "state st \<noteq> GUEST_ANSWER_READY"
  shows "\<exists>answer. createAnswer (pc pf) d = Inr answer \<and>
           btoa (JSON_stringify (libs pf) (localDescription (pc pf) answer)) = Inr (answerData st')"
  using assms
  by (auto simp: handleGuestLoad_join_def initPeer_def Let_def
      split: sum.splits option.splits if_splits)

lemma handleGuestLoad_ready:
  assumes "state (handleGuestLoad pf hash st) = GUEST_ANSWER_READY"
  shows "\<exists>d k64 answer. invite_fields (libs pf) hash = Some (d, k64) \<and>
           createAnswer (pc pf) d = Inr answer \<and>
           btoa (JSON_stringify (libs pf) (localDescription (pc pf) answer))
             = Inr (answerData (handleGuestLoad pf hash st))"
proof (cases "invite_fields (libs pf) hash")
  case None
  then show ?thesis using assms by (simp add: handleGuestLoad_invalid)
next
  case (Some f)
  obtain d k64 where f: "f = (d, k64)" by (cases f)
  let ?st = "st\<lparr>state := GUEST_PROCESSING\<rparr>"
  obtain oc st' where j: "handleGuestLoad_join pf d k64 ?st = (oc, st')"
    by (cases "handleGuestLoad_join pf d k64 ?st")
  have res: "handleGuestLoad pf hash st =
      (case oc of Thrown e \<Rightarrow> st'\<lparr>console := console st' @ [''error''],
              alerts := alerts st' @ [''Failed to join session''], state := INIT\<rparr> | _ \<Rightarrow> st')"
    using Some f j by (simp add: handleGuestLoad_def handleGuestLoad_try_fields split: outcome.splits)
  with assms have st': "handleGuestLoad pf hash st = st'" "state st' = GUEST_ANSWER_READY"
    by (cases oc; simp)+
  from handleGuestLoad_join_ready[OF j st'(2)] Some f st'(1) show ?thesis by auto
qed

section \<open>The decoding of a pasted answer\<close>

lemma decodeAnswer_chain:
  "case first_valid [spec_decode_compressed lib i, spec_decode_base64 lib i] of
     Some v \<Rightarrow> decodeAnswer lib i = Inr v
   | None \<Rightarrow>
       if startsWith i (js ''{'') then decodeAnswer lib i = JSON_parse lib i
       else (\<exists>v. decodeAnswer lib i = Inr v \<and> \<not> truthy v)"
proof -
  obtain payload where p: "parseLinkHash lib i = Inr payload"
    by (simp add: parseLinkHash_returns)
  show ?thesis
  proof (cases "spec_decode_compressed lib i")
    case (Some s)
    then have "truthy payload" "get_prop payload (js ''s'') = Inr s" "truthy s"
      using p by (cases payload; auto simp: spec_decode_compressed_def split: sum.splits if_splits)+
    with p Some show ?thesis by (simp add: decodeAnswer_def)
  next
    case None
    then have a: "(if truthy payload then
                   (case get_prop payload (js ''s'') of Inl e \<Rightarrow> JNull
                    | Inr s \<Rightarrow> if truthy s then s else JNull) else JNull) = JNull"
      using p by (auto simp: spec_decode_compressed_def split: sum.splits if_splits)
    show ?thesis
    proof (cases "spec_decode_base64 lib i")
      case (Some v)
      then have "\<exists>binary. atob i = Inr binary \<and> JSON_parse lib binary = Inr v \<and> truthy v"
        by (auto simp: spec_decode_base64_def split: sum.splits if_splits)
      with None Some p a show ?thesis by (auto simp: decodeAnswer_def)
    next
      case N: None
      have "\<not> truthy (case atob i of Inl e \<Rightarrow> JNull
                | Inr binary \<Rightarrow> (case JSON_parse lib binary of Inl e \<Rightarrow> JNull | Inr v \<Rightarrow> v))"
        using N by (auto simp: spec_decode_base64_def split: sum.splits if_splits)
      with None N p a show ?thesis by (simp add: decodeAnswer_def)
    qed
  qed
qed

lemma handleHostProcessAnswer_blank:
  "trim (manualInput st) = [] \<Longrightarrow> handleHostProcessAnswer pf st = st"
  by (simp add: handleHostProcessAnswer_def)

lemma handleHostProcessAnswer_thrown:
  assumes "trim (manualInput st) \<noteq> []" and "decodeAnswer (libs pf) (manualInput st) = Inl e"
  shows "handleHostProcessAnswer pf st
           = st\<lparr>console := console st @ parseLinkHash_log (libs pf) (manualInput st) @ [''error''],
                alerts := alerts st @ [''Error connecting'']\<rparr>"
  using assms by (simp add: handleHostProcessAnswer_def handleHostProcessAnswer_try_def)

lemma handleHostProcessAnswer_accepted:
  assumes "trim (manualInput st) \<noteq> []" and "decodeAnswer (libs pf) (manualInput st) = Inr v"
    and "truthy v" and "pcRef st = Some conn" and "setRemoteDescription (pc pf) v = None"
  shows "handleHostProcessAnswer pf st
           = st\<lparr>console := console st @ parseLinkHash_log (libs pf) (manualInput st),
                pcRef := Some (conn\<lparr>remoteDescription := v\<rparr>)\<rparr>"
  using assms by (simp add: handleHostProcessAnswer_def handleHostProcessAnswer_try_def)

lemma handleHostProcessAnswer_refused:
  assumes "trim (manualInput st) \<noteq> []" and "decodeAnswer (libs pf) (manualInput st) = Inr v"
    and "truthy v" and "pcRef st = Some conn" and "setRemoteDescription (pc pf) v = Some e"
  shows "handleHostProcessAnswer pf st
           = st\<lparr>console := console st @ parseLinkHash_log (libs pf) (manualInput st) @ [''error''],
                alerts := alerts st @ [''Error connecting'']\<rparr>"
  using assms by (simp add: handleHostProcessAnswer_def handleHostProcessAnswer_try_def)

lemma handleHostProcessAnswer_invalid:
  assumes "trim (manualInput st) \<noteq> []" and "decodeAnswer (libs pf) (manualInput st) = Inr v"
    and "\<not> truthy v \<or> pcRef st = None"
  shows "handleHostProcessAnswer pf st
           = st\<lparr>console := console st @ parseLinkHash_log (libs pf) (manualInput st),
                alerts := alerts st @ [''Invalid Answer Code'']\<rparr>"
  using assms
  by (auto simp: handleHostProcessAnswer_def handleHostProcessAnswer_try_def Let_def
      split: option.splits)

section \<open>The examples, evaluated\<close>

lemma invite_text_nonempty: "invite_text \<noteq> []"
  by (simp add: invite_text_def js_def)

lemma zero_nonce_b64: "js ''AAAAAAAAAAAAAAAA'' = b64_encode zero_nonce"
  by (simp add: zero_nonce_def b64_char_def b64_alphabet_def js_def)












lemma draw_zero: "getRandomValues (\<lambda>i. 0) 12 = zero_nonce"
  by (simp add: getRandomValues_def zero_nonce_def upt_rec[of _ 12] )

lemma draw_one: "getRandomValues (\<lambda>i. 1) 12 = one_nonce"
  by (simp add: getRandomValues_def one_nonce_def upt_rec[of _ 12])

lemma hello_bytes: "TextEncoder_encode (js ''hello'') = [0x68, 0x65, 0x6C, 0x6C, 0x6F]"
  by (simp add: TextEncoder_encode_def utf8_encode_scalar_def js_def is_high_surrogate_def
      is_low_surrogate_def)

lemma replicate_32:
  "replicate 32 x = [x, x, x, x, x, x, x, x, x, x, x, x, x, x, x, x,
                     x, x, x, x, x, x, x, x, x, x, x, x, x, x, x, x]"
  by (simp add: numeral_eq_Suc)

lemma zero_key_b64: "zero_key64 = b64_encode (replicate 32 0)"
  unfolding replicate_32
  by (simp add: zero_key64_def b64_char_def b64_alphabet_def b64_pad_def js_def)

lemma importKey_zero: "importKey tagging_cipher zero_key64 = Inr 0"
  unfolding importKey_def zero_key_b64 base64ToArrayBuffer_encode
  by (simp add: tagging_cipher_def)

lemma exportKey_zero: "exportKey tagging_cipher 0 = Inr zero_key64"
  unfolding exportKey_def zero_key_b64
  by (simp add: tagging_cipher_def arrayBufferToBase64_encode)

lemma field_names: "js ''s'' \<noteq> js ''k''" "js ''k'' \<noteq> js ''s''"
  by (simp_all add: js_def)

lemma texts_differ: "answer_text \<noteq> invite_text" "invite_text \<noteq> answer_text"
  by (simp_all add: answer_text_def invite_text_def js_def)

lemma guest_parse: "parseLinkHash guest_codec invite_token = Inr invite_object"
  using texts_differ invite_text_nonempty
  by (simp add: parseLinkHash_returns guest_codec_def table_codec_def)

lemma zero_key64_nonempty: "zero_key64 \<noteq> []"
  by (simp add: zero_key64_def js_def)

lemma guest_fields: "invite_fields guest_codec invite_token = Some (offer_sdp, JStr zero_key64)"
  by (simp add: invite_fields_def guest_parse invite_object_def field_names offer_sdp_def
      zero_key64_nonempty)

lemma guest_stringify: "JSON_stringify guest_codec answer_sdp = answer_text"
  by (simp add: guest_codec_def table_codec_def)

lemma answer_text_latin1: "\<not> list_ex (\<lambda>c. 255 < unat c) answer_text"
  by (simp add: answer_text_def js_def)

lemma btoa_answer: "btoa answer_text = Inr (b64_encode (map ucast answer_text))"
  using answer_text_latin1 by (simp add: btoa_def)

lemma wait_complete: "resolved (waitForIce (scripted_rtc v [IceGathering, IceComplete])) = 1"
  by (simp add: waitForIce_result scripted_rtc_def)

lemma wait_pending: "resolved (waitForIce (scripted_rtc v [IceGathering])) = 0"
  by (simp add: waitForIce_result scripted_rtc_def)

lemma guest_run_ready:
  "handleGuestLoad (demo_platform guest_codec (scripted_rtc None [IceGathering, IceComplete]))
     invite_token initial_app
   = initial_app\<lparr>state := GUEST_ANSWER_READY, sharedKey := Some 0,
       pcRef := Some \<lparr>remoteDescription = offer_sdp\<rparr>,
       answerData := b64_encode (map ucast answer_text)\<rparr>"
proof -
  let ?pf = "demo_platform guest_codec (scripted_rtc None [IceGathering, IceComplete])"
  have sel: "libs ?pf = guest_codec" "subtle ?pf = tagging_cipher"
    "pc ?pf = scripted_rtc None [IceGathering, IceComplete]"
    by (simp_all add: demo_platform_def)
  have rtc: "setRemoteDescription (scripted_rtc None [IceGathering, IceComplete]) offer_sdp = None"
    "createAnswer (scripted_rtc None [IceGathering, IceComplete]) offer_sdp = Inr answer_sdp"
    "setLocalDescription (scripted_rtc None [IceGathering, IceComplete]) answer_sdp = None"
    "localDescription (scripted_rtc None [IceGathering, IceComplete]) answer_sdp = answer_sdp"
    by (simp_all add: scripted_rtc_def)
  show ?thesis
    by (simp add: handleGuestLoad_def handleGuestLoad_try_fields sel guest_fields
        handleGuestLoad_join_def importKey_zero rtc wait_complete guest_stringify btoa_answer
        initPeer_def initial_app_def)
qed

lemma guest_run_rejected:
  "handleGuestLoad (demo_platform guest_codec (scripted_rtc (Some OperationError) []))
     invite_token initial_app
   = initial_app\<lparr>state := INIT, sharedKey := Some 0,
       pcRef := Some \<lparr>remoteDescription = JNull\<rparr>,
       alerts := [''Failed to join session''], console := [''error'']\<rparr>"
proof -
  let ?pf = "demo_platform guest_codec (scripted_rtc (Some OperationError) [])"
  have sel: "libs ?pf = guest_codec" "subtle ?pf = tagging_cipher"
    "pc ?pf = scripted_rtc (Some OperationError) []"
    by (simp_all add: demo_platform_def)
  have rtc: "setRemoteDescription (scripted_rtc (Some OperationError) []) offer_sdp
               = Some OperationError"
    by (simp add: scripted_rtc_def)
  show ?thesis
    by (simp add: handleGuestLoad_def handleGuestLoad_try_fields sel guest_fields
        handleGuestLoad_join_def importKey_zero rtc initPeer_def initial_app_def)
qed

lemma invite_stringify: "JSON_stringify guest_codec invite_object = invite_text"
proof -
  have "answer_sdp \<noteq> invite_object"
    by (simp add: answer_sdp_def invite_object_def js_def)
  then show ?thesis by (simp add: guest_codec_def table_codec_def)
qed

lemma invite_compress: "compressToEncodedURIComponent guest_codec invite_text = invite_token"
  by (simp add: guest_codec_def table_codec_def)

lemma host_run_waiting:
  "startHost (demo_platform guest_codec (scripted_rtc None [IceGathering, IceComplete])) initial_app
   = initial_app\<lparr>state := HOST_WAITING, sharedKey := Some 0,
       pcRef := Some \<lparr>remoteDescription = JNull\<rparr>, dcRef := Some \<lparr>onmessage_key = None\<rparr>,
       offerLink := js ''https://chat.example/'' @ js ''#'' @ invite_token\<rparr>"
proof -
  let ?pf = "demo_platform guest_codec (scripted_rtc None [IceGathering, IceComplete])"
  have sel: "libs ?pf = guest_codec" "subtle ?pf = tagging_cipher"
    "pc ?pf = scripted_rtc None [IceGathering, IceComplete]"
    "location ?pf = js ''https://chat.example/''"
    by (simp_all add: demo_platform_def)
  have rtc: "createOffer (scripted_rtc None [IceGathering, IceComplete]) = Inr offer_sdp"
    "setLocalDescription (scripted_rtc None [IceGathering, IceComplete]) offer_sdp = None"
    "localDescription (scripted_rtc None [IceGathering, IceComplete]) offer_sdp = offer_sdp"
    by (simp_all add: scripted_rtc_def)
  have gen: "generateKey tagging_cipher = Inr 0"
    by (simp add: generateKey_def tagging_cipher_def)
  have hash: "generateLinkHash guest_codec offer_sdp zero_key64 = invite_token"
    using invite_stringify invite_compress
    by (simp add: generateLinkHash_def invite_object_def)
  show ?thesis
    by (simp add: startHost_def startHost_try_def sel gen exportKey_zero rtc wait_complete hash
        setupDataChannel_def initPeer_def initial_app_def)
qed

lemma host_run_pending:
  "startHost (demo_platform guest_codec (scripted_rtc None [IceGathering])) initial_app
   = initial_app\<lparr>state := HOST_GENERATING, sharedKey := Some 0,
       pcRef := Some \<lparr>remoteDescription = JNull\<rparr>, dcRef := Some \<lparr>onmessage_key = None\<rparr>\<rparr>"
proof -
  let ?pf = "demo_platform guest_codec (scripted_rtc None [IceGathering])"
  have sel: "libs ?pf = guest_codec" "subtle ?pf = tagging_cipher"
    "pc ?pf = scripted_rtc None [IceGathering]"
    by (simp_all add: demo_platform_def)
  have rtc: "createOffer (scripted_rtc None [IceGathering]) = Inr offer_sdp"
    "setLocalDescription (scripted_rtc None [IceGathering]) offer_sdp = None"
    by (simp_all add: scripted_rtc_def)
  have gen: "generateKey tagging_cipher = Inr 0"
    by (simp add: generateKey_def tagging_cipher_def)
  show ?thesis
    by (simp add: startHost_def startHost_try_def sel gen exportKey_zero rtc wait_pending
        setupDataChannel_def initPeer_def initial_app_def)
qed

lemma atob_brace: "atob (js ''{'') = Inl InvalidCharacterError"
  by (simp add: atob_def js_def ascii_whitespace_def strip_padding_def)

lemma atob_braces: "atob (js ''{}'') = Inl InvalidCharacterError"
  by (simp add: atob_def js_def ascii_whitespace_def strip_padding_def b64_index_def
      b64_alphabet_def list_ex_iff)

lemma brace_not_blank: "trim (js ''{'') \<noteq> []" "trim (js ''{}'') \<noteq> []"
  by (simp_all add: trim_def js_def js_whitespace_def)

lemma brace_strings: "js ''{'' \<noteq> js ''{}''" "js ''{}'' \<noteq> js ''{''" "js ''{}'' \<noteq> js ''N4XyA''"
  "js ''{'' \<noteq> js ''N4XyA''"
  by (simp_all add: js_def)

lemma decode_brace: "decodeAnswer empty_object_codec (js ''{'') = Inl SyntaxError"
  using brace_strings
  by (simp add: decodeAnswer_def parseLinkHash_returns empty_object_codec_def table_codec_def
      atob_brace startsWith_def)

lemma chain_brace: "spec_decode_chain empty_object_codec (js ''{'') = None"
  using brace_strings
  by (simp add: spec_decode_chain_def spec_decode_compressed_def spec_decode_base64_def
      spec_decode_raw_def parseLinkHash_returns empty_object_codec_def table_codec_def atob_brace)

lemma decode_braces: "decodeAnswer empty_object_codec (js ''{}'') = Inr (JObj [])"
  using brace_strings
  by (simp add: decodeAnswer_def parseLinkHash_returns empty_object_codec_def table_codec_def
      atob_braces startsWith_def)
     (simp add: js_def)

lemma blank_input: "trim (js ''   '') = []"
  by (simp add: trim_def js_def js_whitespace_def)

lemma short_key_fields:
  "invite_fields short_key_codec short_key_token = Some (offer_sdp, JStr (js ''AAAA''))"
proof -
  have "short_key_text \<noteq> []" by (simp add: short_key_text_def js_def)
  then have "parseLinkHash short_key_codec short_key_token
        = Inr (JObj [(js ''s'', offer_sdp), (js ''k'', JStr (js ''AAAA''))])"
    by (simp add: parseLinkHash_returns short_key_codec_def table_codec_def)
  moreover have "js ''AAAA'' \<noteq> []" by (simp add: js_def)
  ultimately show ?thesis
    by (simp add: invite_fields_def field_names offer_sdp_def)
qed

lemma short_key_import: "importKey tagging_cipher (js ''AAAA'') = Inl DataError"
proof -
  have "js ''AAAA'' = b64_encode [0, 0, 0]"
    by (simp add: b64_char_def b64_alphabet_def js_def)
  then show ?thesis
    unfolding importKey_def by (simp only: base64ToArrayBuffer_encode) (simp add: tagging_cipher_def)
qed

lemma empty_hash_fields: "invite_fields guest_codec [] = None"
proof -
  have "invite_token \<noteq> []" by (simp add: invite_token_def js_def)
  then show ?thesis
    by (simp add: invite_fields_def parseLinkHash_returns guest_codec_def table_codec_def)
qed

lemma token_not_blank: "trim invite_token \<noteq> []"
  by (simp add: trim_def invite_token_def js_def js_whitespace_def)

lemma compressed_wins: "spec_decode_compressed guest_codec invite_token = Some offer_sdp"
  by (simp add: spec_decode_compressed_def guest_parse invite_object_def offer_sdp_def)

lemma bom_sealed_b64: "js ''77u/AAAAAAAAAAAAAAAA'' = b64_encode ([0xEF, 0xBB, 0xBF] @ zero_nonce)"
  by (simp add: zero_nonce_def b64_char_def b64_alphabet_def js_def)

lemma hello_fields: "invite_fields hello_codec (js ''BYUwNmD2Q'') = None"
proof -
  have "js ''hello'' \<noteq> []" by (simp add: js_def)
  then show ?thesis
    by (simp add: invite_fields_def parseLinkHash_returns hello_codec_def table_codec_def)
qed

lemma hello_log: "parseLinkHash_log hello_codec (js ''BYUwNmD2Q'') = [''Link parse error'']"
proof -
  have "js ''hello'' \<noteq> []" by (simp add: js_def)
  then show ?thesis
    by (simp add: parseLinkHash_logs hello_codec_def table_codec_def)
qed

lemma empty_hash_log: "parseLinkHash_log guest_codec [] = []"
proof -
  have "invite_token \<noteq> []" by (simp add: invite_token_def js_def)
  then show ?thesis
    by (simp add: parseLinkHash_logs guest_codec_def table_codec_def)
qed

lemma atob_hello_token: "atob (js ''BYUwNmD2Q'') = Inl InvalidCharacterError"
  by (simp add: atob_def js_def ascii_whitespace_def strip_padding_def)

lemma hello_token_not_blank: "trim (js ''BYUwNmD2Q'') \<noteq> []"
  by (simp add: trim_def js_def js_whitespace_def)

lemma decode_hello_token: "decodeAnswer hello_codec (js ''BYUwNmD2Q'') = Inr JNull"
proof -
  have "js ''hello'' \<noteq> []" by (simp add: js_def)
  moreover have "\<not> startsWith (js ''BYUwNmD2Q'') (js ''{'')" by (simp add: startsWith_def js_def)
  ultimately show ?thesis
    by (simp add: decodeAnswer_def parseLinkHash_returns hello_codec_def table_codec_def
        atob_hello_token)
qed

lemma brace_log: "parseLinkHash_log empty_object_codec (js ''{'') = []"
  using brace_strings
  by (simp add: parseLinkHash_logs empty_object_codec_def table_codec_def)

lemma invite_token_log: "parseLinkHash_log guest_codec invite_token = []"
  by (rule invite_fields_log[OF guest_fields])

section \<open>The claims\<close>

text \<open>
  C1. Decoding the invite token made from a descriptor \<open>d\<close> and an exported key \<open>k\<close>
  returns the pair \<open>{s: d, k: k}\<close>, whenever the two primitives keep the serialized
  pair: \<open>JSON.stringify\<close> gives a text that is not empty and that \<open>JSON.parse\<close>
  reads back as the pair, and decompression returns that text from its compression.
  The guard on an empty decompression and the \<open>catch\<close> of \<open>parseLinkHash\<close> lose
  nothing.
\<close>

theorem link_hash_roundtrip:
  assumes "JSON_stringify lib (JObj [(js ''s'', d), (js ''k'', JStr k)]) = text"
    and "text \<noteq> []"
    and "decompressFromEncodedURIComponent lib (compressToEncodedURIComponent lib text)
           = Inr (Some text)"
    and "JSON_parse lib text = Inr (JObj [(js ''s'', d), (js ''k'', JStr k)])"
  shows "parseLinkHash lib (generateLinkHash lib d k)
           = Inr (JObj [(js ''s'', d), (js ''k'', JStr k)])"
  using assms by (simp add: parseLinkHash_returns generateLinkHash_def)

text \<open>
  The invite for the example offer and the key of 32 zero bytes.
\<close>

theorem link_hash_roundtrip_witness:
  "parseLinkHash guest_codec (generateLinkHash guest_codec offer_sdp zero_key64)
     = Inr (JObj [(js ''s'', offer_sdp), (js ''k'', JStr zero_key64)])"
proof -
  have 1: "JSON_stringify guest_codec (JObj [(js ''s'', offer_sdp), (js ''k'', JStr zero_key64)])
             = invite_text"
    using invite_stringify by (simp add: invite_object_def)
  have 3: "decompressFromEncodedURIComponent guest_codec
             (compressToEncodedURIComponent guest_codec invite_text) = Inr (Some invite_text)"
    by (simp add: guest_codec_def table_codec_def)
  have 4: "JSON_parse guest_codec invite_text
             = Inr (JObj [(js ''s'', offer_sdp), (js ''k'', JStr zero_key64)])"
    using texts_differ by (simp add: guest_codec_def table_codec_def invite_object_def)
  show ?thesis
    by (rule link_hash_roundtrip[OF 1 invite_text_nonempty 3 4])
qed

text \<open>
  C2 (amended). For every key and every text payload \<open>p\<close>, whenever AES-GCM decrypts
  what it encrypted under the same key and nonce, \<open>encryptData\<close> succeeds and
  \<open>decryptData\<close> applied to the \<open>iv\<close> and \<open>data\<close> it produced returns
  \<open>p.toWellFormed()\<close> without a leading U+FEFF: every surrogate without its partner has
  become U+FFFD, and then one U+FEFF at the start has been dropped. What comes back is
  \<open>p\<close> itself exactly when \<open>p\<close> is well formed and does not begin with U+FEFF, as
  the empty string and well-formed text outside ASCII are.
\<close>

theorem encrypt_decrypt_roundtrip:
  assumes "subtle_encrypt wc k (getRandomValues src 12) (TextEncoder_encode p) = Inr c"
    and "subtle_decrypt wc k (getRandomValues src 12) c = Inr (TextEncoder_encode p)"
  shows "\<exists>m. encryptData wc src p k = Inr m \<and>
           decryptData wc (data m) (iv m) k = Inr (without_bom (toWellFormed p)) \<and>
           (decryptData wc (data m) (iv m) k = Inr p \<longleftrightarrow>
              well_formed p \<and> (p = [] \<or> hd p \<noteq> 0xFEFF))"
  using assms
  by (simp add: encryptData_ok decryptData_encoded text_received received_unchanged)

text \<open>
  A payload with an accented letter, a currency sign and an emoji (a surrogate pair).
\<close>

theorem encrypt_decrypt_roundtrip_witness:
  "\<exists>m. encryptData tagging_cipher (\<lambda>i. of_nat i) [0x68, 0xE9, 0x20AC, 0xD83D, 0xDE00] 7 = Inr m \<and>
       decryptData tagging_cipher (data m) (iv m) 7 = Inr [0x68, 0xE9, 0x20AC, 0xD83D, 0xDE00]"
proof -
  let ?p = "[0x68, 0xE9, 0x20AC, 0xD83D, 0xDE00] :: jstring"
  have wf: "well_formed ?p \<and> (?p = [] \<or> hd ?p \<noteq> 0xFEFF)"
    by (simp add: is_high_surrogate_def is_low_surrogate_def)
  have enc: "subtle_encrypt tagging_cipher 7 (getRandomValues (\<lambda>i. of_nat i) 12) (TextEncoder_encode ?p)
      = Inr (TextEncoder_encode ?p @ getRandomValues (\<lambda>i. of_nat i) 12)"
    by (simp add: tagging_cipher_def)
  have dec: "subtle_decrypt tagging_cipher 7 (getRandomValues (\<lambda>i. of_nat i) 12)
       (TextEncoder_encode ?p @ getRandomValues (\<lambda>i. of_nat i) 12) = Inr (TextEncoder_encode ?p)"
    by (simp add: tagging_cipher_def)
  from encrypt_decrypt_roundtrip[OF enc dec] wf show ?thesis by blast
qed

text \<open>
  For all payloads the round trip fails: the payload that consists of U+FEFF alone is
  encoded as \<open>EF BB BF\<close>, and the decoder drops these bytes as a byte order mark, so
  the empty string comes back.
\<close>

theorem bom_payload_not_returned:
  "encryptData tagging_cipher (\<lambda>i. 0) [0xFEFF] 0
     = Inr \<lparr>iv = js ''AAAAAAAAAAAAAAAA'', data = js ''77u/AAAAAAAAAAAAAAAA''\<rparr> \<and>
   decryptData tagging_cipher (js ''77u/AAAAAAAAAAAAAAAA'') (js ''AAAAAAAAAAAAAAAA'') 0 = Inr []"
proof -
  have enc: "subtle_encrypt tagging_cipher 0 (getRandomValues (\<lambda>i. 0) 12)
               (TextEncoder_encode [0xFEFF])
             = Inr ([0xEF, 0xBB, 0xBF] @ zero_nonce)"
    by (simp add: tagging_cipher_def draw_zero bom_encode)
  have dec: "subtle_decrypt tagging_cipher 0 zero_nonce ([0xEF, 0xBB, 0xBF] @ zero_nonce)
             = Inr [0xEF, 0xBB, 0xBF]"
    by (simp add: tagging_cipher_def zero_nonce_def)
  have 1: "encryptData tagging_cipher (\<lambda>i. 0) [0xFEFF] 0
      = Inr \<lparr>iv = js ''AAAAAAAAAAAAAAAA'', data = js ''77u/AAAAAAAAAAAAAAAA''\<rparr>"
    by (simp only: encryptData_ok[OF enc] draw_zero zero_nonce_b64 bom_sealed_b64)
  have 2: "decryptData tagging_cipher (js ''77u/AAAAAAAAAAAAAAAA'') (js ''AAAAAAAAAAAAAAAA'') 0
      = Inr []"
    by (simp only: zero_nonce_b64 bom_sealed_b64 decryptData_encoded dec sum.case bom_decode)
  from 1 2 show ?thesis by simp
qed

text \<open>
  C3. Whenever the guest reaches \<open>GUEST_ANSWER_READY\<close>, the response token it shows is
  \<open>btoa\<close> of the serialized local description and of nothing else: \<open>atob\<close> alone gives
  the serialization back (there is no compression stage), the description is the one the
  transport made from the descriptor of the invite, and an invite with the same
  descriptor and any other key gives the same token, so the token carries no key.
\<close>

theorem response_token_plain_base64:
  assumes "state (handleGuestLoad pf hash st) = GUEST_ANSWER_READY"
  shows "\<exists>d k64 answer.
           invite_fields (libs pf) hash = Some (d, k64) \<and>
           createAnswer (pc pf) d = Inr answer \<and>
           btoa (JSON_stringify (libs pf) (localDescription (pc pf) answer))
             = Inr (answerData (handleGuestLoad pf hash st)) \<and>
           atob (answerData (handleGuestLoad pf hash st))
             = Inr (JSON_stringify (libs pf) (localDescription (pc pf) answer)) \<and>
           (\<forall>hash' st' k64'.
              state (handleGuestLoad pf hash' st') = GUEST_ANSWER_READY \<and>
              invite_fields (libs pf) hash' = Some (d, k64') \<longrightarrow>
              answerData (handleGuestLoad pf hash' st') = answerData (handleGuestLoad pf hash st))"
proof -
  from handleGuestLoad_ready[OF assms] obtain d k64 answer where
    f: "invite_fields (libs pf) hash = Some (d, k64)" and
    a: "createAnswer (pc pf) d = Inr answer" and
    b: "btoa (JSON_stringify (libs pf) (localDescription (pc pf) answer))
             = Inr (answerData (handleGuestLoad pf hash st))"
    by blast
  have other: "answerData (handleGuestLoad pf hash' st') = answerData (handleGuestLoad pf hash st)"
    if r: "state (handleGuestLoad pf hash' st') = GUEST_ANSWER_READY"
      and f': "invite_fields (libs pf) hash' = Some (d, k64')" for hash' st' k64'
  proof -
    from handleGuestLoad_ready[OF r] f' a
    have "btoa (JSON_stringify (libs pf) (localDescription (pc pf) answer))
             = Inr (answerData (handleGuestLoad pf hash' st'))"
      by auto
    with b show ?thesis by simp
  qed
  from f a b atob_btoa[OF b] other show ?thesis by blast
qed

text \<open>
  The guest run for the example invite: the token decodes to the serialized answer.
\<close>

theorem response_token_plain_base64_witness:
  "state (handleGuestLoad (demo_platform guest_codec (scripted_rtc None [IceGathering, IceComplete]))
            invite_token initial_app) = GUEST_ANSWER_READY \<and>
   atob (answerData (handleGuestLoad
            (demo_platform guest_codec (scripted_rtc None [IceGathering, IceComplete]))
            invite_token initial_app)) = Inr answer_text"
proof -
  let ?pf = "demo_platform guest_codec (scripted_rtc None [IceGathering, IceComplete])"
  have r: "state (handleGuestLoad ?pf invite_token initial_app) = GUEST_ANSWER_READY"
    by (simp add: guest_run_ready)
  have sel: "libs ?pf = guest_codec" "pc ?pf = scripted_rtc None [IceGathering, IceComplete]"
    by (simp_all add: demo_platform_def)
  from response_token_plain_base64[OF r] obtain d k64 answer where
    A: "invite_fields guest_codec invite_token = Some (d, k64)" and
    B: "createAnswer (scripted_rtc None [IceGathering, IceComplete]) d = Inr answer" and
    C: "atob (answerData (handleGuestLoad ?pf invite_token initial_app))
       = Inr (JSON_stringify guest_codec
                (localDescription (scripted_rtc None [IceGathering, IceComplete]) answer))"
    unfolding sel by blast
  from B have "answer = answer_sdp" by (simp add: scripted_rtc_def)
  moreover have "localDescription (scripted_rtc None [IceGathering, IceComplete]) answer_sdp
      = answer_sdp"
    by (simp add: scripted_rtc_def)
  ultimately have "atob (answerData (handleGuestLoad ?pf invite_token initial_app))
      = Inr answer_text"
    using C by (simp add: guest_stringify)
  with r show ?thesis by simp
qed

text \<open>
  C4 (amended). When the host processes a pasted answer, a blank input is ignored with
  no attempt at decoding. Otherwise the compressed-token decoding is tried first and the
  base64-then-JSON decoding second, and the first of the two that yields a truthy
  descriptor wins. A failure of the second is discarded; a failure inside
  \<open>parseLinkHash\<close> (the decompression or \<open>JSON.parse\<close> throws) is not shown to the
  user but written to the console as \<open>Link parse error\<close>. The raw JSON decoding is
  tried only when neither yields a truthy descriptor and the input starts with \<open>{\<close>,
  and then its result is taken as it is: when it throws, the error is logged and
  reported as \<open>Error connecting\<close>. A truthy descriptor is handed to the transport when
  there is a peer connection, and a rejection by the transport is logged and reported
  as \<open>Error connecting\<close>; without a truthy descriptor or without a connection,
  \<open>Invalid Answer Code\<close> is reported. Nothing else in the state changes.
\<close>

theorem host_answer_decoding:
  "(trim (manualInput st) = [] \<longrightarrow> handleHostProcessAnswer pf st = st) \<and>
   (case first_valid [spec_decode_compressed (libs pf) (manualInput st),
                      spec_decode_base64 (libs pf) (manualInput st)] of
      Some v \<Rightarrow> decodeAnswer (libs pf) (manualInput st) = Inr v
    | None \<Rightarrow>
        if startsWith (manualInput st) (js ''{'')
        then decodeAnswer (libs pf) (manualInput st) = JSON_parse (libs pf) (manualInput st)
        else (\<exists>v. decodeAnswer (libs pf) (manualInput st) = Inr v \<and> \<not> truthy v)) \<and>
   parseLinkHash_log (libs pf) (manualInput st) =
     (case decompressFromEncodedURIComponent (libs pf) (manualInput st) of
        Inl e \<Rightarrow> [''Link parse error'']
      | Inr None \<Rightarrow> []
      | Inr (Some text) \<Rightarrow>
          if text = [] then []
          else (case JSON_parse (libs pf) text of Inl e \<Rightarrow> [''Link parse error''] | Inr v \<Rightarrow> [])) \<and>
   (\<forall>e. trim (manualInput st) \<noteq> [] \<and> decodeAnswer (libs pf) (manualInput st) = Inl e \<longrightarrow>
        handleHostProcessAnswer pf st
          = st\<lparr>console := console st @ parseLinkHash_log (libs pf) (manualInput st) @ [''error''],
               alerts := alerts st @ [''Error connecting'']\<rparr>) \<and>
   (\<forall>v conn. trim (manualInput st) \<noteq> [] \<and> decodeAnswer (libs pf) (manualInput st) = Inr v \<and>
        truthy v \<and> pcRef st = Some conn \<and> setRemoteDescription (pc pf) v = None \<longrightarrow>
        handleHostProcessAnswer pf st
          = st\<lparr>console := console st @ parseLinkHash_log (libs pf) (manualInput st),
               pcRef := Some (conn\<lparr>remoteDescription := v\<rparr>)\<rparr>) \<and>
   (\<forall>v conn e. trim (manualInput st) \<noteq> [] \<and> decodeAnswer (libs pf) (manualInput st) = Inr v \<and>
        truthy v \<and> pcRef st = Some conn \<and> setRemoteDescription (pc pf) v = Some e \<longrightarrow>
        handleHostProcessAnswer pf st
          = st\<lparr>console := console st @ parseLinkHash_log (libs pf) (manualInput st) @ [''error''],
               alerts := alerts st @ [''Error connecting'']\<rparr>) \<and>
   (\<forall>v. trim (manualInput st) \<noteq> [] \<and> decodeAnswer (libs pf) (manualInput st) = Inr v \<and>
        (\<not> truthy v \<or> pcRef st = None) \<longrightarrow>
        handleHostProcessAnswer pf st
          = st\<lparr>console := console st @ parseLinkHash_log (libs pf) (manualInput st),
               alerts := alerts st @ [''Invalid Answer Code'']\<rparr>)"
proof (intro conjI allI impI)
  assume "trim (manualInput st) = []"
  then show "handleHostProcessAnswer pf st = st" by (rule handleHostProcessAnswer_blank)
next
  show "case first_valid [spec_decode_compressed (libs pf) (manualInput st),
                      spec_decode_base64 (libs pf) (manualInput st)] of
      Some v \<Rightarrow> decodeAnswer (libs pf) (manualInput st) = Inr v
    | None \<Rightarrow>
        if startsWith (manualInput st) (js ''{'')
        then decodeAnswer (libs pf) (manualInput st) = JSON_parse (libs pf) (manualInput st)
        else (\<exists>v. decodeAnswer (libs pf) (manualInput st) = Inr v \<and> \<not> truthy v)"
    by (rule decodeAnswer_chain)
next
  show "parseLinkHash_log (libs pf) (manualInput st) =
     (case decompressFromEncodedURIComponent (libs pf) (manualInput st) of
        Inl e \<Rightarrow> [''Link parse error'']
      | Inr None \<Rightarrow> []
      | Inr (Some text) \<Rightarrow>
          if text = [] then []
          else (case JSON_parse (libs pf) text of Inl e \<Rightarrow> [''Link parse error''] | Inr v \<Rightarrow> []))"
    by (rule parseLinkHash_logs)
next
  fix e
  assume a: "trim (manualInput st) \<noteq> [] \<and> decodeAnswer (libs pf) (manualInput st) = Inl e"
  show "handleHostProcessAnswer pf st
          = st\<lparr>console := console st @ parseLinkHash_log (libs pf) (manualInput st) @ [''error''],
               alerts := alerts st @ [''Error connecting'']\<rparr>"
    by (rule handleHostProcessAnswer_thrown[OF a[THEN conjunct1] a[THEN conjunct2]])
next
  fix v conn
  assume a: "trim (manualInput st) \<noteq> [] \<and> decodeAnswer (libs pf) (manualInput st) = Inr v \<and>
        truthy v \<and> pcRef st = Some conn \<and> setRemoteDescription (pc pf) v = None"
  then show "handleHostProcessAnswer pf st
          = st\<lparr>console := console st @ parseLinkHash_log (libs pf) (manualInput st),
               pcRef := Some (conn\<lparr>remoteDescription := v\<rparr>)\<rparr>"
    by (intro handleHostProcessAnswer_accepted) simp_all
next
  fix v conn e
  assume a: "trim (manualInput st) \<noteq> [] \<and> decodeAnswer (libs pf) (manualInput st) = Inr v \<and>
        truthy v \<and> pcRef st = Some conn \<and> setRemoteDescription (pc pf) v = Some e"
  then show "handleHostProcessAnswer pf st
          = st\<lparr>console := console st @ parseLinkHash_log (libs pf) (manualInput st) @ [''error''],
               alerts := alerts st @ [''Error connecting'']\<rparr>"
    by (intro handleHostProcessAnswer_refused[of st pf v conn e]) simp_all
next
  fix v
  assume a: "trim (manualInput st) \<noteq> [] \<and> decodeAnswer (libs pf) (manualInput st) = Inr v \<and>
        (\<not> truthy v \<or> pcRef st = None)"
  then show "handleHostProcessAnswer pf st
          = st\<lparr>console := console st @ parseLinkHash_log (libs pf) (manualInput st),
               alerts := alerts st @ [''Invalid Answer Code'']\<rparr>"
    by (intro handleHostProcessAnswer_invalid[of st pf v]) simp_all
qed

text \<open>
  A blank input, the token of the example invite (the compressed decoding wins), the
  input \<open>{\<close>, and the token of the text \<open>hello\<close>.
\<close>

theorem host_answer_decoding_witness:
  "handleHostProcessAnswer (demo_platform guest_codec (scripted_rtc None []))
       (initial_app\<lparr>state := HOST_WAITING, manualInput := js ''   ''\<rparr>)
     = initial_app\<lparr>state := HOST_WAITING, manualInput := js ''   ''\<rparr> \<and>
   handleHostProcessAnswer (demo_platform guest_codec (scripted_rtc None []))
       (initial_app\<lparr>state := HOST_WAITING, pcRef := Some \<lparr>remoteDescription = JNull\<rparr>,
                    manualInput := invite_token\<rparr>)
     = initial_app\<lparr>state := HOST_WAITING, pcRef := Some \<lparr>remoteDescription = offer_sdp\<rparr>,
                   manualInput := invite_token\<rparr> \<and>
   handleHostProcessAnswer (demo_platform empty_object_codec (scripted_rtc None []))
       (initial_app\<lparr>state := HOST_WAITING, pcRef := Some \<lparr>remoteDescription = JNull\<rparr>,
                    manualInput := js ''{''\<rparr>)
     = initial_app\<lparr>state := HOST_WAITING, pcRef := Some \<lparr>remoteDescription = JNull\<rparr>,
                   manualInput := js ''{'', console := [''error''],
                   alerts := [''Error connecting'']\<rparr> \<and>
   handleHostProcessAnswer (demo_platform hello_codec (scripted_rtc None []))
       (initial_app\<lparr>state := HOST_WAITING, pcRef := Some \<lparr>remoteDescription = JNull\<rparr>,
                    manualInput := js ''BYUwNmD2Q''\<rparr>)
     = initial_app\<lparr>state := HOST_WAITING, pcRef := Some \<lparr>remoteDescription = JNull\<rparr>,
                   manualInput := js ''BYUwNmD2Q'', console := [''Link parse error''],
                   alerts := [''Invalid Answer Code'']\<rparr>"
proof -
  let ?pf = "demo_platform guest_codec (scripted_rtc None [])"
  let ?pe = "demo_platform empty_object_codec (scripted_rtc None [])"
  let ?ph = "demo_platform hello_codec (scripted_rtc None [])"
  let ?s1 = "initial_app\<lparr>state := HOST_WAITING, manualInput := js ''   ''\<rparr> :: nat app"
  let ?s2 = "initial_app\<lparr>state := HOST_WAITING, pcRef := Some \<lparr>remoteDescription = JNull\<rparr>,
                    manualInput := invite_token\<rparr> :: nat app"
  let ?s3 = "initial_app\<lparr>state := HOST_WAITING, pcRef := Some \<lparr>remoteDescription = JNull\<rparr>,
                    manualInput := js ''{''\<rparr> :: nat app"
  let ?s4 = "initial_app\<lparr>state := HOST_WAITING, pcRef := Some \<lparr>remoteDescription = JNull\<rparr>,
                    manualInput := js ''BYUwNmD2Q''\<rparr> :: nat app"
  have 1: "handleHostProcessAnswer ?pf ?s1 = ?s1"
    by (rule host_answer_decoding[of ?s1 ?pf, THEN conjunct1, rule_format])
       (simp add: blank_input)
  have sel: "libs ?pf = guest_codec" "pc ?pf = scripted_rtc None []" "manualInput ?s2 = invite_token"
    "libs ?pe = empty_object_codec" "manualInput ?s3 = js ''{''"
    "libs ?ph = hello_codec" "manualInput ?s4 = js ''BYUwNmD2Q''"
    by (simp_all add: demo_platform_def)
  have d2: "decodeAnswer (libs ?pf) (manualInput ?s2) = Inr offer_sdp"
    using host_answer_decoding[of ?s2 ?pf, THEN conjunct2, THEN conjunct1]
    unfolding sel by (simp add: compressed_wins)
  have t2: "truthy offer_sdp" by (simp add: offer_sdp_def)
  have r2: "setRemoteDescription (pc ?pf) offer_sdp = None"
    by (simp add: demo_platform_def scripted_rtc_def)
  have p2: "pcRef ?s2 = Some \<lparr>remoteDescription = JNull\<rparr>" by simp
  have nb2: "trim (manualInput ?s2) \<noteq> []" by (simp add: token_not_blank)
  have 2: "handleHostProcessAnswer ?pf ?s2
      = ?s2\<lparr>console := console ?s2 @ parseLinkHash_log (libs ?pf) (manualInput ?s2),
            pcRef := Some (\<lparr>remoteDescription = JNull\<rparr>\<lparr>remoteDescription := offer_sdp\<rparr>)\<rparr>"
    by (rule host_answer_decoding[of ?s2 ?pf, THEN conjunct2, THEN conjunct2, THEN conjunct2,
          THEN conjunct2, THEN conjunct1, rule_format])
       (intro conjI nb2 d2 t2 p2 r2)
  have 3: "handleHostProcessAnswer ?pe ?s3
      = ?s3\<lparr>console := console ?s3 @ parseLinkHash_log (libs ?pe) (manualInput ?s3) @ [''error''],
            alerts := alerts ?s3 @ [''Error connecting'']\<rparr>"
    by (rule host_answer_decoding[of ?s3 ?pe, THEN conjunct2, THEN conjunct2, THEN conjunct2,
          THEN conjunct1, rule_format, of SyntaxError])
       (simp add: sel decode_brace brace_not_blank)
  have 4: "handleHostProcessAnswer ?ph ?s4
      = ?s4\<lparr>console := console ?s4 @ parseLinkHash_log (libs ?ph) (manualInput ?s4),
            alerts := alerts ?s4 @ [''Invalid Answer Code'']\<rparr>"
    by (rule host_answer_decoding[of ?s4 ?ph, THEN conjunct2, THEN conjunct2, THEN conjunct2,
          THEN conjunct2, THEN conjunct2, THEN conjunct2, rule_format, of JNull])
       (simp add: sel decode_hello_token hello_token_not_blank)
  from 1 2 3 4 show ?thesis
    unfolding sel
    by (simp add: initial_app_def invite_token_log brace_log hello_log)
qed

text \<open>
  As the claim words it the statement fails: for the input \<open>{\<close> all three decodings
  fail, so the chain of the specification has no result, but the failure of the raw
  decoding is not discarded: it leaves the decoding as an exception and is reported.
  Nor is a failure of the first decoding silent: for the token of \<open>hello\<close> it is
  written to the console.
\<close>

theorem raw_decode_failure_reported:
  "spec_decode_chain empty_object_codec (js ''{'') = None \<and>
   decodeAnswer empty_object_codec (js ''{'') = Inl SyntaxError \<and>
   alerts (handleHostProcessAnswer (demo_platform empty_object_codec (scripted_rtc None []))
       (initial_app\<lparr>state := HOST_WAITING, pcRef := Some \<lparr>remoteDescription = JNull\<rparr>,
                    manualInput := js ''{''\<rparr>)) = [''Error connecting''] \<and>
   console (handleHostProcessAnswer (demo_platform hello_codec (scripted_rtc None []))
       (initial_app\<lparr>state := HOST_WAITING, pcRef := Some \<lparr>remoteDescription = JNull\<rparr>,
                    manualInput := js ''BYUwNmD2Q''\<rparr>)) = [''Link parse error'']"
proof -
  let ?pe = "demo_platform empty_object_codec (scripted_rtc None [])"
  let ?ph = "demo_platform hello_codec (scripted_rtc None [])"
  let ?s3 = "initial_app\<lparr>state := HOST_WAITING, pcRef := Some \<lparr>remoteDescription = JNull\<rparr>,
                    manualInput := js ''{''\<rparr> :: nat app"
  let ?s4 = "initial_app\<lparr>state := HOST_WAITING, pcRef := Some \<lparr>remoteDescription = JNull\<rparr>,
                    manualInput := js ''BYUwNmD2Q''\<rparr> :: nat app"
  have "handleHostProcessAnswer ?pe ?s3
      = ?s3\<lparr>console := console ?s3 @ parseLinkHash_log (libs ?pe) (manualInput ?s3) @ [''error''],
            alerts := alerts ?s3 @ [''Error connecting'']\<rparr>"
    by (rule handleHostProcessAnswer_thrown)
       (simp_all add: demo_platform_def decode_brace brace_not_blank)
  then have a: "alerts (handleHostProcessAnswer ?pe ?s3) = [''Error connecting'']"
    by (simp add: initial_app_def)
  have "handleHostProcessAnswer ?ph ?s4
      = ?s4\<lparr>console := console ?s4 @ parseLinkHash_log (libs ?ph) (manualInput ?s4),
            alerts := alerts ?s4 @ [''Invalid Answer Code'']\<rparr>"
    by (rule handleHostProcessAnswer_invalid[of _ _ JNull])
       (simp_all add: demo_platform_def decode_hello_token hello_token_not_blank)
  then have c: "console (handleHostProcessAnswer ?ph ?s4) = [''Link parse error'']"
    by (simp add: initial_app_def demo_platform_def hello_log)
  from a c chain_brace decode_brace show ?thesis by simp
qed

text \<open>
  C5 (amended). For every input string \<open>parseLinkHash\<close> returns and never throws. It
  returns \<open>null\<close> when the decompression throws or yields \<open>null\<close> or the empty
  string, and when \<open>JSON.parse\<close> throws; otherwise it returns what \<open>JSON.parse\<close>
  returned, unchanged, whatever fields it has.
\<close>

theorem parseLinkHash_total:
  "parseLinkHash lib hash =
     Inr (case decompressFromEncodedURIComponent lib hash of
            Inl e \<Rightarrow> JNull
          | Inr None \<Rightarrow> JNull
          | Inr (Some text) \<Rightarrow>
              if text = [] then JNull
              else (case JSON_parse lib text of Inl e \<Rightarrow> JNull | Inr v \<Rightarrow> v))"
  by (rule parseLinkHash_returns)

text \<open>
  The empty input, and an input outside the alphabet.
\<close>

theorem parseLinkHash_total_witness:
  "parseLinkHash empty_object_codec [] = Inr JNull \<and>
   parseLinkHash empty_object_codec (js ''{'') = Inr JNull"
proof -
  have "parseLinkHash empty_object_codec [] = Inr JNull"
    using parseLinkHash_total[of empty_object_codec "[]"]
    by (simp add: empty_object_codec_def table_codec_def js_def)
  moreover have "parseLinkHash empty_object_codec (js ''{'') = Inr JNull"
    using parseLinkHash_total[of empty_object_codec "js ''{''"]
    by (simp add: empty_object_codec_def table_codec_def js_def)
  ultimately show ?thesis by simp
qed

text \<open>
  A structurally incomplete input is not answered with \<open>null\<close>: the token of the text
  \<open>{}\<close> yields an object that has neither descriptor nor key.
\<close>

theorem incomplete_payload_returned:
  "parseLinkHash empty_object_codec (js ''N4XyA'') = Inr (JObj []) \<and>
   get_prop (JObj []) (js ''s'') = Inr JUndefined \<and>
   get_prop (JObj []) (js ''k'') = Inr JUndefined"
  by (simp add: parseLinkHash_returns empty_object_codec_def table_codec_def js_def)

text \<open>
  C6 (amended). When the invite yields no result or lacks a truthy descriptor or key, the
  guest returns to \<open>INIT\<close> with the alert \<open>Invalid Invite Link\<close>; the console
  receives \<open>Link parse error\<close> exactly when the decompression or \<open>JSON.parse\<close> has
  thrown inside \<open>parseLinkHash\<close>, and nothing else changes. When the import of the key
  fails, it returns to \<open>INIT\<close> with the alert \<open>Failed to join session\<close> and a
  console entry, and no key, connection or channel is stored. When the transport rejects
  the remote descriptor, it returns to \<open>INIT\<close> with the same alert and console entry,
  but the imported key and the new peer connection stay stored; so they do, the
  connection with the descriptor set, when a later step fails (creating the answer,
  setting it, or encoding the response). No channel is stored in any of these cases.
\<close>

theorem guest_load_failures:
  "(invite_fields (libs pf) hash = None \<longrightarrow>
      handleGuestLoad pf hash st
        = st\<lparr>state := INIT, alerts := alerts st @ [''Invalid Invite Link''],
             console := console st @ parseLinkHash_log (libs pf) hash\<rparr>) \<and>
   parseLinkHash_log (libs pf) hash =
     (case decompressFromEncodedURIComponent (libs pf) hash of
        Inl e \<Rightarrow> [''Link parse error'']
      | Inr None \<Rightarrow> []
      | Inr (Some text) \<Rightarrow>
          if text = [] then []
          else (case JSON_parse (libs pf) text of Inl e \<Rightarrow> [''Link parse error''] | Inr v \<Rightarrow> [])) \<and>
   (\<forall>d k64 e.
      invite_fields (libs pf) hash = Some (d, k64) \<and>
      importKey (subtle pf) (to_string k64) = Inl e \<longrightarrow>
      handleGuestLoad pf hash st
        = st\<lparr>state := INIT, alerts := alerts st @ [''Failed to join session''],
             console := console st @ [''error'']\<rparr>) \<and>
   (\<forall>d k64 key e.
      invite_fields (libs pf) hash = Some (d, k64) \<and>
      importKey (subtle pf) (to_string k64) = Inr key \<and>
      setRemoteDescription (pc pf) d = Some e \<longrightarrow>
      handleGuestLoad pf hash st
        = st\<lparr>state := INIT, alerts := alerts st @ [''Failed to join session''],
             console := console st @ [''error''], sharedKey := Some key,
             pcRef := Some \<lparr>remoteDescription = JNull\<rparr>\<rparr>) \<and>
   (\<forall>d k64 key e.
      invite_fields (libs pf) hash = Some (d, k64) \<and>
      importKey (subtle pf) (to_string k64) = Inr key \<and>
      setRemoteDescription (pc pf) d = None \<and>
      (createAnswer (pc pf) d = Inl e \<or>
       (\<exists>answer. createAnswer (pc pf) d = Inr answer \<and>
          (setLocalDescription (pc pf) answer = Some e \<or>
           (setLocalDescription (pc pf) answer = None \<and>
            resolved (waitForIce (pc pf)) \<noteq> 0 \<and>
            btoa (JSON_stringify (libs pf) (localDescription (pc pf) answer)) = Inl e)))) \<longrightarrow>
      handleGuestLoad pf hash st
        = st\<lparr>state := INIT, alerts := alerts st @ [''Failed to join session''],
             console := console st @ [''error''], sharedKey := Some key,
             pcRef := Some \<lparr>remoteDescription = d\<rparr>\<rparr>)"
proof (intro conjI allI impI)
  assume "invite_fields (libs pf) hash = None"
  then show "handleGuestLoad pf hash st
        = st\<lparr>state := INIT, alerts := alerts st @ [''Invalid Invite Link''],
             console := console st @ parseLinkHash_log (libs pf) hash\<rparr>"
    by (rule handleGuestLoad_invalid)
next
  show "parseLinkHash_log (libs pf) hash =
     (case decompressFromEncodedURIComponent (libs pf) hash of
        Inl e \<Rightarrow> [''Link parse error'']
      | Inr None \<Rightarrow> []
      | Inr (Some text) \<Rightarrow>
          if text = [] then []
          else (case JSON_parse (libs pf) text of Inl e \<Rightarrow> [''Link parse error''] | Inr v \<Rightarrow> []))"
    by (rule parseLinkHash_logs)
next
  fix d k64 e
  assume a: "invite_fields (libs pf) hash = Some (d, k64) \<and>
      importKey (subtle pf) (to_string k64) = Inl e"
  show "handleGuestLoad pf hash st
        = st\<lparr>state := INIT, alerts := alerts st @ [''Failed to join session''],
             console := console st @ [''error'']\<rparr>"
    by (rule handleGuestLoad_import_fails[OF a[THEN conjunct1] a[THEN conjunct2]])
next
  fix d k64 key e
  assume a: "invite_fields (libs pf) hash = Some (d, k64) \<and>
      importKey (subtle pf) (to_string k64) = Inr key \<and>
      setRemoteDescription (pc pf) d = Some e"
  show "handleGuestLoad pf hash st
        = st\<lparr>state := INIT, alerts := alerts st @ [''Failed to join session''],
             console := console st @ [''error''], sharedKey := Some key,
             pcRef := Some \<lparr>remoteDescription = JNull\<rparr>\<rparr>"
    by (rule handleGuestLoad_rejected[OF a[THEN conjunct1] a[THEN conjunct2, THEN conjunct1]
          a[THEN conjunct2, THEN conjunct2]])
next
  fix d k64 key e
  assume a: "invite_fields (libs pf) hash = Some (d, k64) \<and>
      importKey (subtle pf) (to_string k64) = Inr key \<and>
      setRemoteDescription (pc pf) d = None \<and>
      (createAnswer (pc pf) d = Inl e \<or>
       (\<exists>answer. createAnswer (pc pf) d = Inr answer \<and>
          (setLocalDescription (pc pf) answer = Some e \<or>
           (setLocalDescription (pc pf) answer = None \<and>
            resolved (waitForIce (pc pf)) \<noteq> 0 \<and>
            btoa (JSON_stringify (libs pf) (localDescription (pc pf) answer)) = Inl e))))"
  show "handleGuestLoad pf hash st
        = st\<lparr>state := INIT, alerts := alerts st @ [''Failed to join session''],
             console := console st @ [''error''], sharedKey := Some key,
             pcRef := Some \<lparr>remoteDescription = d\<rparr>\<rparr>"
    by (rule handleGuestLoad_later_failure[OF a[THEN conjunct1] a[THEN conjunct2, THEN conjunct1]
          a[THEN conjunct2, THEN conjunct2, THEN conjunct1]
          a[THEN conjunct2, THEN conjunct2, THEN conjunct2]])
qed

text \<open>
  The empty link, the token of the text \<open>hello\<close>, an invite whose key has three bytes,
  and the example invite with a transport that rejects its descriptor.
\<close>

theorem guest_load_failures_witness:
  "handleGuestLoad (demo_platform guest_codec (scripted_rtc None [])) [] initial_app
     = initial_app\<lparr>alerts := [''Invalid Invite Link'']\<rparr> \<and>
   handleGuestLoad (demo_platform hello_codec (scripted_rtc None [])) (js ''BYUwNmD2Q'') initial_app
     = initial_app\<lparr>alerts := [''Invalid Invite Link''], console := [''Link parse error'']\<rparr> \<and>
   handleGuestLoad (demo_platform short_key_codec (scripted_rtc None [])) short_key_token initial_app
     = initial_app\<lparr>alerts := [''Failed to join session''], console := [''error'']\<rparr> \<and>
   handleGuestLoad (demo_platform guest_codec (scripted_rtc (Some OperationError) []))
       invite_token initial_app
     = initial_app\<lparr>alerts := [''Failed to join session''], console := [''error''],
         sharedKey := Some 0, pcRef := Some \<lparr>remoteDescription = JNull\<rparr>\<rparr>"
proof -
  let ?p1 = "demo_platform guest_codec (scripted_rtc None [])"
  let ?ph = "demo_platform hello_codec (scripted_rtc None [])"
  let ?p2 = "demo_platform short_key_codec (scripted_rtc None [])"
  let ?p3 = "demo_platform guest_codec (scripted_rtc (Some OperationError) [])"
  let ?st = "initial_app :: nat app"
  have libs: "libs ?p1 = guest_codec" "libs ?ph = hello_codec"
    by (simp_all add: demo_platform_def)
  have 1: "handleGuestLoad ?p1 [] ?st
      = ?st\<lparr>state := INIT, alerts := alerts ?st @ [''Invalid Invite Link''],
            console := console ?st @ parseLinkHash_log (libs ?p1) []\<rparr>"
    by (rule guest_load_failures[of ?p1 "[]" ?st, THEN conjunct1, rule_format])
       (simp add: libs empty_hash_fields)
  have h: "handleGuestLoad ?ph (js ''BYUwNmD2Q'') ?st
      = ?st\<lparr>state := INIT, alerts := alerts ?st @ [''Invalid Invite Link''],
            console := console ?st @ parseLinkHash_log (libs ?ph) (js ''BYUwNmD2Q'')\<rparr>"
    by (rule guest_load_failures[of ?ph "js ''BYUwNmD2Q''" ?st, THEN conjunct1, rule_format])
       (simp add: libs hello_fields)
  have 2: "handleGuestLoad ?p2 short_key_token ?st
      = ?st\<lparr>state := INIT, alerts := alerts ?st @ [''Failed to join session''],
             console := console ?st @ [''error'']\<rparr>"
    by (rule guest_load_failures[of ?p2 short_key_token ?st, THEN conjunct2, THEN conjunct2,
          THEN conjunct1, rule_format, of offer_sdp "JStr (js ''AAAA'')" DataError])
       (simp add: demo_platform_def short_key_fields short_key_import)
  have 3: "handleGuestLoad ?p3 invite_token ?st
      = ?st\<lparr>state := INIT, alerts := alerts ?st @ [''Failed to join session''],
             console := console ?st @ [''error''], sharedKey := Some 0,
             pcRef := Some \<lparr>remoteDescription = JNull\<rparr>\<rparr>"
    by (rule guest_load_failures[of ?p3 invite_token ?st, THEN conjunct2, THEN conjunct2,
          THEN conjunct2, THEN conjunct1, rule_format, of offer_sdp "JStr zero_key64" 0
          OperationError])
       (simp add: demo_platform_def guest_fields importKey_zero scripted_rtc_def)
  from 1 h 2 3 show ?thesis
    by (simp add: initial_app_def libs empty_hash_log hello_log)
qed

text \<open>
  A session field is populated after a failed load: the transport rejects the descriptor
  of the example invite, and the key imported before stays in \<open>sharedKey\<close>.
\<close>

theorem rejected_invite_keeps_key:
  "state (handleGuestLoad (demo_platform guest_codec (scripted_rtc (Some OperationError) []))
            invite_token initial_app) = INIT \<and>
   sharedKey (handleGuestLoad (demo_platform guest_codec (scripted_rtc (Some OperationError) []))
            invite_token initial_app) = Some 0 \<and>
   pcRef (handleGuestLoad (demo_platform guest_codec (scripted_rtc (Some OperationError) []))
            invite_token initial_app) = Some \<lparr>remoteDescription = JNull\<rparr>"
  by (simp add: guest_run_rejected)




text \<open>
  C8. Every call of \<open>encryptData\<close> draws 12 bytes from the random source and hands them
  to AES-GCM as the nonce: the \<open>iv\<close> it returns decodes to exactly these bytes, and the
  \<open>data\<close> it returns decodes to exactly the ciphertext that AES-GCM produced for the
  key, this nonce and the encoded plaintext. For two calls with the same key and
  plaintext and different draws the nonces differ, and the ciphertexts differ as well,
  given that AES-GCM under a nonce of 12 bytes decrypts what it encrypted and does not
  return the plaintext under another nonce of 12 bytes.
\<close>

theorem fresh_nonce_per_call:
  assumes "getRandomValues source1 12 \<noteq> getRandomValues source2 12"
    and "subtle_encrypt wc k (getRandomValues source1 12) (TextEncoder_encode p) = Inr c1"
    and "subtle_encrypt wc k (getRandomValues source2 12) (TextEncoder_encode p) = Inr c2"
    and "\<forall>n n' plain c. length n = 12 \<and> length n' = 12 \<and> subtle_encrypt wc k n plain = Inr c \<longrightarrow>
           subtle_decrypt wc k n c = Inr plain \<and>
           (n' \<noteq> n \<longrightarrow> subtle_decrypt wc k n' c \<noteq> Inr plain)"
  shows "\<exists>m1 m2. encryptData wc source1 p k = Inr m1 \<and> encryptData wc source2 p k = Inr m2 \<and>
           base64ToArrayBuffer (iv m1) = Inr (getRandomValues source1 12) \<and>
           base64ToArrayBuffer (iv m2) = Inr (getRandomValues source2 12) \<and>
           length (getRandomValues source1 12) = 12 \<and> length (getRandomValues source2 12) = 12 \<and>
           base64ToArrayBuffer (data m1) = Inr c1 \<and> base64ToArrayBuffer (data m2) = Inr c2 \<and>
           iv m1 \<noteq> iv m2 \<and> data m1 \<noteq> data m2"
proof -
  let ?n1 = "getRandomValues source1 12" and ?n2 = "getRandomValues source2 12"
  have len: "length ?n1 = 12" "length ?n2 = 12" by (simp_all add: length_draw)
  have "b64_encode ?n1 \<noteq> b64_encode ?n2"
    using assms(1) b64_encode_inj by blast
  moreover have "c1 \<noteq> c2"
  proof
    assume eq: "c1 = c2"
    have "subtle_decrypt wc k ?n1 c1 = Inr (TextEncoder_encode p)"
      using assms(4) len assms(2) by blast
    moreover have "subtle_decrypt wc k ?n1 c2 \<noteq> Inr (TextEncoder_encode p)"
      using assms(4) len assms(3) assms(1) by blast
    ultimately show False using eq by simp
  qed
  then have "b64_encode c1 \<noteq> b64_encode c2"
    using b64_encode_inj by blast
  ultimately show ?thesis
    by (simp add: encryptData_ok[OF assms(2)] encryptData_ok[OF assms(3)]
        base64ToArrayBuffer_encode length_draw)
qed

text \<open>
  Two calls on \<open>hello\<close>, with draws of zeros and of ones.
\<close>

theorem fresh_nonce_per_call_witness:
  "\<exists>m1 m2. encryptData tagging_cipher (\<lambda>i. 0) (js ''hello'') 0 = Inr m1 \<and>
       encryptData tagging_cipher (\<lambda>i. 1) (js ''hello'') 0 = Inr m2 \<and>
       base64ToArrayBuffer (iv m1) = Inr zero_nonce \<and>
       base64ToArrayBuffer (iv m2) = Inr one_nonce \<and>
       length zero_nonce = 12 \<and> length one_nonce = 12 \<and>
       base64ToArrayBuffer (data m1) = Inr (TextEncoder_encode (js ''hello'') @ zero_nonce) \<and>
       base64ToArrayBuffer (data m2) = Inr (TextEncoder_encode (js ''hello'') @ one_nonce) \<and>
       iv m1 \<noteq> iv m2 \<and> data m1 \<noteq> data m2"
proof -
  have ne: "getRandomValues (\<lambda>i. 0::byte) 12 \<noteq> getRandomValues (\<lambda>i. 1) 12"
    by (simp add: draw_zero draw_one zero_nonce_def one_nonce_def)
  have e1: "subtle_encrypt tagging_cipher 0 (getRandomValues (\<lambda>i. 0) 12)
              (TextEncoder_encode (js ''hello''))
            = Inr (TextEncoder_encode (js ''hello'') @ zero_nonce)"
    by (simp add: tagging_cipher_def draw_zero)
  have e2: "subtle_encrypt tagging_cipher 0 (getRandomValues (\<lambda>i. 1) 12)
              (TextEncoder_encode (js ''hello''))
            = Inr (TextEncoder_encode (js ''hello'') @ one_nonce)"
    by (simp add: tagging_cipher_def draw_one)
  have contract: "\<forall>n n' plain c. length n = 12 \<and> length n' = 12 \<and>
           subtle_encrypt tagging_cipher 0 n plain = Inr c \<longrightarrow>
           subtle_decrypt tagging_cipher 0 n c = Inr plain \<and>
           (n' \<noteq> n \<longrightarrow> subtle_decrypt tagging_cipher 0 n' c \<noteq> Inr plain)"
    by (auto simp: tagging_cipher_def)
  from fresh_nonce_per_call[OF ne e1 e2 contract] show ?thesis
    by (simp only: draw_zero draw_one)
qed

text \<open>
  C9. The promise of \<open>waitForIce\<close> is resolved at most once, and it is resolved exactly
  when the gathering state was \<open>complete\<close> at the call or at one of the events
  delivered since; while it is not, the listener stays registered. In both flows the
  token is built only after that: the host shows a link or reaches \<open>HOST_WAITING\<close>,
  and the guest shows an answer or reaches \<open>GUEST_ANSWER_READY\<close>, only when the
  gathering has completed.
\<close>

theorem token_after_gathering:
  "resolved (waitForIce conn) \<le> 1 \<and>
   (resolved (waitForIce conn) = 1 \<longleftrightarrow>
      iceGatheringState conn = IceComplete \<or> IceComplete \<in> set (iceEvents conn)) \<and>
   (listening (waitForIce conn) \<longleftrightarrow> resolved (waitForIce conn) = 0) \<and>
   (state (startHost pf st) = HOST_WAITING \<or> offerLink (startHost pf st) \<noteq> offerLink st
      \<longrightarrow> iceGatheringState (pc pf) = IceComplete \<or> IceComplete \<in> set (iceEvents (pc pf))) \<and>
   (state (handleGuestLoad pf hash st) = GUEST_ANSWER_READY \<or>
    answerData (handleGuestLoad pf hash st) \<noteq> answerData st
      \<longrightarrow> iceGatheringState (pc pf) = IceComplete \<or> IceComplete \<in> set (iceEvents (pc pf)))"
proof (intro conjI impI)
  show "resolved (waitForIce conn) \<le> 1" by (simp add: waitForIce_result)
  show "resolved (waitForIce conn) = 1 \<longleftrightarrow>
      iceGatheringState conn = IceComplete \<or> IceComplete \<in> set (iceEvents conn)"
    by (simp add: waitForIce_result)
  show "listening (waitForIce conn) \<longleftrightarrow> resolved (waitForIce conn) = 0"
    by (simp add: waitForIce_result)
next
  assume "state (startHost pf st) = HOST_WAITING \<or> offerLink (startHost pf st) \<noteq> offerLink st"
  then have "resolved (waitForIce (pc pf)) \<noteq> 0" by (rule startHost_token)
  then show "iceGatheringState (pc pf) = IceComplete \<or> IceComplete \<in> set (iceEvents (pc pf))"
    by (simp only: waitForIce_resolved)
next
  assume "state (handleGuestLoad pf hash st) = GUEST_ANSWER_READY \<or>
    answerData (handleGuestLoad pf hash st) \<noteq> answerData st"
  then have "resolved (waitForIce (pc pf)) \<noteq> 0" by (rule handleGuestLoad_token)
  then show "iceGatheringState (pc pf) = IceComplete \<or> IceComplete \<in> set (iceEvents (pc pf))"
    by (simp only: waitForIce_resolved)
qed

text \<open>
  A transport that completes the gathering with its second event lets both flows produce
  their token; after the first event alone the host has produced none.
\<close>

theorem token_after_gathering_witness:
  "state (startHost (demo_platform guest_codec (scripted_rtc None [IceGathering, IceComplete]))
            initial_app) = HOST_WAITING \<and>
   state (handleGuestLoad (demo_platform guest_codec (scripted_rtc None [IceGathering, IceComplete]))
            invite_token initial_app) = GUEST_ANSWER_READY \<and>
   IceComplete \<in> set (iceEvents (pc (demo_platform guest_codec
                                       (scripted_rtc None [IceGathering, IceComplete])))) \<and>
   resolved (waitForIce (scripted_rtc None [IceGathering, IceComplete])) = 1 \<and>
   state (startHost (demo_platform guest_codec (scripted_rtc None [IceGathering])) initial_app)
     = HOST_GENERATING \<and>
   offerLink (startHost (demo_platform guest_codec (scripted_rtc None [IceGathering])) initial_app)
     = []"
proof -
  let ?pf = "demo_platform guest_codec (scripted_rtc None [IceGathering, IceComplete])"
  have h: "state (startHost ?pf initial_app) = HOST_WAITING"
    by (simp add: host_run_waiting)
  have g: "state (handleGuestLoad ?pf invite_token initial_app) = GUEST_ANSWER_READY"
    by (simp add: guest_run_ready)
  note T = token_after_gathering[of "scripted_rtc None [IceGathering, IceComplete]" ?pf initial_app
      invite_token]
  have not_initially: "iceGatheringState (pc ?pf) \<noteq> IceComplete"
    by (simp add: demo_platform_def scripted_rtc_def)
  from T h not_initially have ev: "IceComplete \<in> set (iceEvents (pc ?pf))" by blast
  then have "IceComplete \<in> set (iceEvents (scripted_rtc None [IceGathering, IceComplete]))"
    by (simp add: demo_platform_def)
  with T have r: "resolved (waitForIce (scripted_rtc None [IceGathering, IceComplete])) = 1"
    by blast
  have p: "state (startHost (demo_platform guest_codec (scripted_rtc None [IceGathering]))
             initial_app) = HOST_GENERATING"
    "offerLink (startHost (demo_platform guest_codec (scripted_rtc None [IceGathering]))
             initial_app) = []"
    by (simp_all add: host_run_pending) (simp add: initial_app_def)
  from h g ev r p show ?thesis by simp
qed

text \<open>
  C10. For every byte buffer \<open>b\<close>, \<open>arrayBufferToBase64\<close> returns a string (it never
  throws), and \<open>base64ToArrayBuffer\<close> applied to that string returns a buffer with
  exactly the bytes of \<open>b\<close>: the two helpers of the security module are mutually inverse
  on all byte sequences.
\<close>

theorem base64_helpers_roundtrip:
  "\<exists>s. arrayBufferToBase64 b = Inr s \<and> base64ToArrayBuffer s = Inr b"
  by (simp add: arrayBufferToBase64_encode base64ToArrayBuffer_encode)

theorem base64_helpers_roundtrip_witness:
  "\<exists>s. arrayBufferToBase64 [1, 2, 3, 255] = Inr s \<and> base64ToArrayBuffer s = Inr [1, 2, 3, 255]"
  by (rule base64_helpers_roundtrip)

end
